theory Spec2Isabelle
  imports Main "HOL-Library.AList"
begin

section \<open>Parsed documents\<close>

text \<open>
  A YAML document decoded into Go's \<^verbatim>\<open>any\<close>. The loaders and the translator only ever
  ask whether a value is a string, a \<^verbatim>\<open>map[string]any\<close> or a \<^verbatim>\<open>[]any\<close>; every other
  dynamic type takes the ``not ok'' branch of a type assertion. \<open>YNum\<close> stands for the
  finite numbers, \<open>YNonFinite\<close> for the floats \<^verbatim>\<open>.nan\<close> and \<^verbatim>\<open>.inf\<close>, and \<open>YAnyMap\<close> for
  a mapping with a non-string key, which the decoder hands out as
  \<^verbatim>\<open>map[interface{}]interface{}\<close>. A Go map is an association list here: the order of the
  list is the order in which \<^verbatim>\<open>range\<close> happens to visit the keys, and the keys of a Go map
  are distinct.
\<close>

datatype yaml =
    YNull
  | YBool bool
  | YNum int
  | YNonFinite
  | YStr string
  | YSeq "yaml list"
  | YMap "(string \<times> yaml) list"
  | YAnyMap "(yaml \<times> yaml) list"

type_synonym ymap = "(string \<times> yaml) list"

text \<open>A failed unchecked type assertion \<^verbatim>\<open>val.(string)\<close> panics with the offending value.\<close>

datatype panic = InterfaceConversion yaml

section \<open>Schema dialect translator\<close>

text \<open>\<^verbatim>\<open>strings.Split(s, sep)\<close> for a one-character separator: never an empty slice.\<close>

fun Split :: "string \<Rightarrow> char \<Rightarrow> string list" where
  "Split [] sep = [[]]"
| "Split (c # cs) sep =
     (if c = sep then [] # Split cs sep
      else (case Split cs sep of [] \<Rightarrow> [[c]] | p # ps \<Rightarrow> (c # p) # ps))"

definition draft2020 :: string where
  "draft2020 = ''https://json-schema.org/draft/2020-12/schema''"

definition asyncapi_ns :: string where
  "asyncapi_ns = ''synapse://asyncapi/''"

definition openapi_ns :: string where
  "openapi_ns = ''synapse://schemas/''"

text \<open>The size of a map, counting its values: the measure of the recursions below.\<close>

abbreviation msize :: "ymap \<Rightarrow> nat" where
  "msize m \<equiv> size_list (size_prod (\<lambda>_. 0) size) m"

text \<open>
  \<^verbatim>\<open>toJSONSchema\<close> and \<^verbatim>\<open>convertProperties\<close> of both validators; the two copies in the
  source differ only in the namespace \<open>ns\<close> of the format string. The \<open>_range\<close> functions
  are the \<^verbatim>\<open>for ... range\<close> loops with the map \<^verbatim>\<open>result\<close> they fill; \<open>convertAllOf\<close> is
  the loop over \<^verbatim>\<open>allOf\<close>, where a slot whose item is no map keeps the nil it was made with.
\<close>

function (sequential)
  toJSONSchema :: "string \<Rightarrow> ymap \<Rightarrow> panic + ymap" and
  toJSONSchema_range :: "string \<Rightarrow> ymap \<Rightarrow> ymap \<Rightarrow> panic + ymap" and
  convertProperties :: "string \<Rightarrow> ymap \<Rightarrow> panic + ymap" and
  convertProperties_range :: "string \<Rightarrow> ymap \<Rightarrow> ymap \<Rightarrow> panic + ymap" and
  convertAllOf :: "string \<Rightarrow> yaml list \<Rightarrow> panic + yaml list"
where
  "toJSONSchema ns schema =
     toJSONSchema_range ns schema [(''$schema'', YStr draft2020)]"
| "toJSONSchema_range ns [] result = Inr result"
| "toJSONSchema_range ns ((k, val) # rest) result =
     (if k = ''$ref'' then
        (case val of
           YStr ref \<Rightarrow>
             toJSONSchema_range ns rest
               (AList.update ''$ref'' (YStr (ns @ last (Split ref CHR ''/''))) result)
         | _ \<Rightarrow> Inl (InterfaceConversion val))
      else if k = ''properties'' then
        (case val of
           YMap props \<Rightarrow>
             (case convertProperties ns props of
                Inl p \<Rightarrow> Inl p
              | Inr converted \<Rightarrow>
                  toJSONSchema_range ns rest
                    (AList.update ''properties'' (YMap converted) result))
         | _ \<Rightarrow> toJSONSchema_range ns rest result)
      else if k = ''items'' then
        (case val of
           YMap items \<Rightarrow>
             (case toJSONSchema ns items of
                Inl p \<Rightarrow> Inl p
              | Inr converted \<Rightarrow>
                  toJSONSchema_range ns rest
                    (AList.update ''items'' (YMap converted) result))
         | _ \<Rightarrow> toJSONSchema_range ns rest result)
      else if k = ''allOf'' then
        (case val of
           YSeq allOf \<Rightarrow>
             (case convertAllOf ns allOf of
                Inl p \<Rightarrow> Inl p
              | Inr converted \<Rightarrow>
                  toJSONSchema_range ns rest
                    (AList.update ''allOf'' (YSeq converted) result))
         | _ \<Rightarrow> toJSONSchema_range ns rest result)
      else toJSONSchema_range ns rest (AList.update k val result))"
| "convertProperties ns props = convertProperties_range ns props []"
| "convertProperties_range ns [] result = Inr result"
| "convertProperties_range ns ((name, propDef) # rest) result =
     (case propDef of
        YMap propMap \<Rightarrow>
          (case toJSONSchema ns propMap of
             Inl p \<Rightarrow> Inl p
           | Inr converted \<Rightarrow>
               convertProperties_range ns rest (AList.update name (YMap converted) result))
      | _ \<Rightarrow> convertProperties_range ns rest result)"
| "convertAllOf ns [] = Inr []"
| "convertAllOf ns (item # rest) =
     (case item of
        YMap itemMap \<Rightarrow>
          (case toJSONSchema ns itemMap of
             Inl p \<Rightarrow> Inl p
           | Inr converted \<Rightarrow>
               (case convertAllOf ns rest of
                  Inl p \<Rightarrow> Inl p
                | Inr more \<Rightarrow> Inr (YMap converted # more)))
      | _ \<Rightarrow>
          (case convertAllOf ns rest of
             Inl p \<Rightarrow> Inl p
           | Inr more \<Rightarrow> Inr (YNull # more)))"
  by pat_completeness auto

termination
  by (relation "measure (\<lambda>x. case x of
        Inl (Inl (ns, schema)) \<Rightarrow> 2 * msize schema + 1
      | Inl (Inr (ns, schema, result)) \<Rightarrow> 2 * msize schema
      | Inr (Inl (ns, props)) \<Rightarrow> 2 * msize props + 1
      | Inr (Inr (Inl (ns, props, result))) \<Rightarrow> 2 * msize props
      | Inr (Inr (Inr (ns, xs))) \<Rightarrow> 2 * size_list size xs)") auto

section \<open>The libraries the engine calls\<close>

text \<open>
  The engine is written against \<^verbatim>\<open>encoding/json\<close> and the JSON-Schema compiler
  \<^verbatim>\<open>jsonschema/v5\<close>. The model takes them as a record of functions, so that what is proved
  of the engine for an arbitrary \<open>L\<close> holds whatever those libraries compute. \<open>'b\<close> is the
  serialized schema handed from \<^verbatim>\<open>json.Marshal\<close> to \<^verbatim>\<open>AddResource\<close>, \<open>'c\<close> the state of a
  \<^verbatim>\<open>*jsonschema.Compiler\<close> (both calls on it may change it), \<open>'s\<close> a compiled
  \<^verbatim>\<open>*jsonschema.Schema\<close> and \<open>'d\<close> a decoded payload. An error is its message.
\<close>

record ('b, 'c, 's, 'd) library =
  Marshal :: "ymap \<Rightarrow> string + 'b"
  NewCompiler :: "'c"
  AddResource :: "'c \<Rightarrow> string \<Rightarrow> 'b \<Rightarrow> 'c \<times> string option"
  Compile :: "'c \<Rightarrow> string \<Rightarrow> 'c \<times> (string + 's)"
  Unmarshal :: "string \<Rightarrow> string + 'd"
  Validate :: "'s \<Rightarrow> 'd \<Rightarrow> string option"

text \<open>
  What \<^verbatim>\<open>os.ReadFile\<close> followed by \<^verbatim>\<open>yaml.Unmarshal\<close> into a \<^verbatim>\<open>map[string]any\<close> gives for
  one path: the file cannot be read, it does not parse, or it is a mapping.
\<close>

datatype spec_file = Unreadable string | Malformed string | Document ymap

datatype load_error =
    ReadingSpec string
  | ParsingSpec string
  | AddingSchema string string
  | CompilingSchema string string
  | ReadingSchemasDir string
  | ReadingSchemaFile string string
  | ParsingSchemaFile string string

section \<open>Registry and compiler: the two passes\<close>

text \<open>
  First pass, the body of \<^verbatim>\<open>for name, schemaDef := range schemas\<close>: translate, serialize,
  \<^verbatim>\<open>AddResource\<close>, remember the name. An entry that is no map, or whose translation does
  not serialize, is passed over (\<^verbatim>\<open>continue\<close>); an \<^verbatim>\<open>AddResource\<close> error ends the load.
\<close>

fun addResources ::
  "('b, 'c, 's, 'd) library \<Rightarrow> string \<Rightarrow> ymap \<Rightarrow> 'c \<Rightarrow> string list
     \<Rightarrow> panic + ('c \<times> string list \<times> load_error option)" where
  "addResources L ns [] c schemaNames = Inr (c, schemaNames, None)"
| "addResources L ns ((name, schemaDef) # rest) c schemaNames =
     (case schemaDef of
        YMap schemaMap \<Rightarrow>
          (case toJSONSchema ns schemaMap of
             Inl p \<Rightarrow> Inl p
           | Inr jsonSchema \<Rightarrow>
               (case Marshal L jsonSchema of
                  Inl err \<Rightarrow> addResources L ns rest c schemaNames
                | Inr jsonBytes \<Rightarrow>
                    (case AddResource L c (ns @ name) jsonBytes of
                       (c', Some err) \<Rightarrow> Inr (c', schemaNames, Some (AddingSchema name err))
                     | (c', None) \<Rightarrow> addResources L ns rest c' (schemaNames @ [name]))))
      | _ \<Rightarrow> addResources L ns rest c schemaNames)"

text \<open>
  Second pass, \<^verbatim>\<open>for _, name := range schemaNames\<close>: compile each remembered name and store
  the compiled schema under it; the first error ends the load.
\<close>

fun compileAll ::
  "('b, 'c, 's, 'd) library \<Rightarrow> string \<Rightarrow> string list \<Rightarrow> 'c \<Rightarrow> (string \<rightharpoonup> 's)
     \<Rightarrow> 'c \<times> (string \<rightharpoonup> 's) \<times> load_error option" where
  "compileAll L ns [] c schemas = (c, schemas, None)"
| "compileAll L ns (name # rest) c schemas =
     (case Compile L c (ns @ name) of
        (c', Inl err) \<Rightarrow> (c', schemas, Some (CompilingSchema name err))
      | (c', Inr compiled) \<Rightarrow> compileAll L ns rest c' (schemas(name \<mapsto> compiled)))"

text \<open>
  The section \<^verbatim>\<open>components.schemas\<close> of a document, when both type assertions of
  \<^verbatim>\<open>loadSpec\<close> succeed; otherwise the first pass has nothing to visit.
\<close>

definition componentSchemas :: "ymap \<Rightarrow> ymap" where
  "componentSchemas spec =
     (case map_of spec ''components'' of
        Some (YMap components) \<Rightarrow>
          (case map_of components ''schemas'' of Some (YMap schemas) \<Rightarrow> schemas | _ \<Rightarrow> [])
      | _ \<Rightarrow> [])"

section \<open>Event dialect: AsyncAPIValidator\<close>

record ChannelInfo =
  Name :: string
  Address :: string
  Description :: string
  MessageName :: string

record ('c, 's) AsyncAPIValidator =
  schemas :: "string \<rightharpoonup> 's"
  channels :: "string \<rightharpoonup> ChannelInfo"
  compiler :: 'c
  specPath :: string

definition getString :: "ymap \<Rightarrow> string \<Rightarrow> string" where
  "getString m key = (case map_of m key of Some (YStr val) \<Rightarrow> val | _ \<Rightarrow> '''')"

fun parseChannels :: "ymap \<Rightarrow> (string \<rightharpoonup> ChannelInfo) \<Rightarrow> (string \<rightharpoonup> ChannelInfo)" where
  "parseChannels [] chans = chans"
| "parseChannels ((name, chDef) # rest) chans =
     (case chDef of
        YMap chMap \<Rightarrow>
          parseChannels rest
            (chans(name \<mapsto> \<lparr>Name = name, Address = getString chMap ''address'',
                             Description = getString chMap ''description'',
                             MessageName = ''''\<rparr>))
      | _ \<Rightarrow> parseChannels rest chans)"

text \<open>
  \<^verbatim>\<open>(*AsyncAPIValidator).loadSpec\<close>. The method writes into the validator it is called on,
  also when it returns an error, so the model returns the validator with the error.
\<close>

definition loadSpec ::
  "('b, 'c, 's, 'd) library \<Rightarrow> spec_file \<Rightarrow> ('c, 's) AsyncAPIValidator
     \<Rightarrow> panic + (('c, 's) AsyncAPIValidator \<times> load_error option)" where
  "loadSpec L file v =
     (case file of
        Unreadable err \<Rightarrow> Inr (v, Some (ReadingSpec err))
      | Malformed err \<Rightarrow> Inr (v, Some (ParsingSpec err))
      | Document spec \<Rightarrow>
          (let v1 = (case map_of spec ''channels'' of
                       Some (YMap chans) \<Rightarrow> v\<lparr>channels := parseChannels chans (channels v)\<rparr>
                     | _ \<Rightarrow> v)
           in case addResources L asyncapi_ns (componentSchemas spec) (compiler v1) [] of
                Inl p \<Rightarrow> Inl p
              | Inr (c, schemaNames, Some err) \<Rightarrow> Inr (v1\<lparr>compiler := c\<rparr>, Some err)
              | Inr (c, schemaNames, None) \<Rightarrow>
                  (case compileAll L asyncapi_ns schemaNames c (schemas v1) of
                     (c', compiled, err) \<Rightarrow>
                       Inr (v1\<lparr>compiler := c', schemas := compiled\<rparr>, err))))"

text \<open>
  \<^verbatim>\<open>NewAsyncAPIValidator\<close> returns the pair \<^verbatim>\<open>(*AsyncAPIValidator, error)\<close>; \<open>None\<close> in the
  first place is the nil pointer. \<open>file\<close> is what reading \<open>path\<close> gives.
\<close>

definition NewAsyncAPIValidator ::
  "('b, 'c, 's, 'd) library \<Rightarrow> spec_file \<Rightarrow> string
     \<Rightarrow> panic + (('c, 's) AsyncAPIValidator option \<times> load_error option)" where
  "NewAsyncAPIValidator L file path =
     (case loadSpec L file
             \<lparr>schemas = Map.empty, channels = Map.empty, compiler = NewCompiler L,
              specPath = path\<rparr> of
        Inl p \<Rightarrow> Inl p
      | Inr (v, Some err) \<Rightarrow> Inr (None, Some err)
      | Inr (v, None) \<Rightarrow> Inr (Some v, None))"

section \<open>Validation facade\<close>

datatype validate_error =
    SchemaNotFound string
  | ParsingMessagePayload string
  | ParsingResponseBody string
  | SchemaValidationFailed string

text \<open>\<^verbatim>\<open>err.Error()\<close> of the errors the facade builds with \<^verbatim>\<open>fmt.Errorf\<close>.\<close>

fun error_text :: "validate_error \<Rightarrow> string" where
  "error_text (SchemaNotFound schemaName) = ''schema not found: '' @ schemaName"
| "error_text (ParsingMessagePayload err) = ''parsing message payload: '' @ err"
| "error_text (ParsingResponseBody err) = ''parsing response body: '' @ err"
| "error_text (SchemaValidationFailed err) = ''schema validation failed: '' @ err"

text \<open>
  \<^verbatim>\<open>(*AsyncAPIValidator).ValidateMessage\<close>. The receiver is a pointer, so the call could
  write to the validator: the model returns the validator as the call leaves it, next to
  the error (\<open>None\<close> is nil).
\<close>

definition ValidateMessage ::
  "('b, 'c, 's, 'd) library \<Rightarrow> ('c, 's) AsyncAPIValidator \<Rightarrow> string \<Rightarrow> string
     \<Rightarrow> validate_error option \<times> ('c, 's) AsyncAPIValidator" where
  "ValidateMessage L v schemaName payload =
     (case schemas v schemaName of
        None \<Rightarrow> (Some (SchemaNotFound schemaName), v)
      | Some schema \<Rightarrow>
          (case Unmarshal L payload of
             Inl err \<Rightarrow> (Some (ParsingMessagePayload err), v)
           | Inr data \<Rightarrow>
               (case Validate L schema data of
                  Some err \<Rightarrow> (Some (SchemaValidationFailed err), v)
                | None \<Rightarrow> (None, v))))"

definition Channels :: "('c, 's) AsyncAPIValidator \<Rightarrow> (string \<rightharpoonup> ChannelInfo)" where
  "Channels v = channels v"

section \<open>Event contract test suite\<close>

record EventTestResult =
  Channel :: string
  Schema :: string
  Passed :: bool
  Error :: string
  Payload :: string

record ('c, 's) EventContractTestSuite =
  validator :: "('c, 's) AsyncAPIValidator"
  results :: "EventTestResult list"

text \<open>
  \<^verbatim>\<open>NewEventContractTestSuite\<close>: no suite when the validator's constructor returned an
  error. (The constructor never returns two nils; the model then returns two as well.)
\<close>

definition NewEventContractTestSuite ::
  "('b, 'c, 's, 'd) library \<Rightarrow> spec_file \<Rightarrow> string
     \<Rightarrow> panic + (('c, 's) EventContractTestSuite option \<times> load_error option)" where
  "NewEventContractTestSuite L file path =
     (case NewAsyncAPIValidator L file path of
        Inl p \<Rightarrow> Inl p
      | Inr (Some v, None) \<Rightarrow> Inr (Some \<lparr>validator = v, results = []\<rparr>, None)
      | Inr (_, err) \<Rightarrow> Inr (None, err))"

definition ValidateEvent ::
  "('b, 'c, 's, 'd) library \<Rightarrow> ('c, 's) EventContractTestSuite \<Rightarrow> string \<Rightarrow> string \<Rightarrow> string
     \<Rightarrow> EventTestResult \<times> ('c, 's) EventContractTestSuite" where
  "ValidateEvent L s channel schema payload =
     (let result = \<lparr>Channel = channel, Schema = schema, Passed = False, Error = [],
                    Payload = payload\<rparr>
      in case ValidateMessage L (validator s) schema payload of
           (Some err, v) \<Rightarrow>
             (let result = result\<lparr>Error := error_text err\<rparr>
              in (result, s\<lparr>validator := v, results := results s @ [result]\<rparr>))
         | (None, v) \<Rightarrow>
             (let result = result\<lparr>Passed := True\<rparr>
              in (result, s\<lparr>validator := v, results := results s @ [result]\<rparr>)))"

definition Results :: "('c, 's) EventContractTestSuite \<Rightarrow> EventTestResult list" where
  "Results s = results s"

fun Summary_range :: "EventTestResult list \<Rightarrow> int \<times> int \<Rightarrow> int \<times> int" where
  "Summary_range [] (passed, failed) = (passed, failed)"
| "Summary_range (r # rest) (passed, failed) =
     (if Passed r then Summary_range rest (passed + 1, failed)
      else Summary_range rest (passed, failed + 1))"

definition Summary :: "('c, 's) EventContractTestSuite \<Rightarrow> int \<times> int" where
  "Summary s = Summary_range (results s) (0, 0)"

text \<open>A run of the suite: one \<^verbatim>\<open>ValidateEvent\<close> per (channel, schema, payload), in order.\<close>

fun ValidateEvents ::
  "('b, 'c, 's, 'd) library \<Rightarrow> ('c, 's) EventContractTestSuite
     \<Rightarrow> (string \<times> string \<times> string) list \<Rightarrow> ('c, 's) EventContractTestSuite" where
  "ValidateEvents L s [] = s"
| "ValidateEvents L s ((channel, schema, payload) # rest) =
     ValidateEvents L (snd (ValidateEvent L s channel schema payload)) rest"

section \<open>REST dialect: OpenAPIValidator\<close>

text \<open>
  The second validator has the fields of the first under the same names; here they carry
  the prefix \<open>o_\<close>. \<^verbatim>\<open>components\<close> is never assigned.
\<close>

record ('c, 's) OpenAPIValidator =
  o_schemas :: "string \<rightharpoonup> 's"
  o_compiler :: 'c
  o_specPath :: string
  o_components :: ymap

text \<open>
  One entry of \<^verbatim>\<open>os.ReadDir(schemasDir)\<close> with what reading and parsing that file gives,
  and the two things \<^verbatim>\<open>NewOpenAPIValidator\<close> reads: the root document and the directory
  \<^verbatim>\<open>components/schemas\<close> beside it (\<open>Inl\<close>: the directory cannot be read).
\<close>

record dir_entry =
  FileName :: string
  IsDir :: bool
  Content :: spec_file

record openapi_files =
  Root :: spec_file
  SchemasDir :: "string + dir_entry list"

definition HasSuffix :: "string \<Rightarrow> string \<Rightarrow> bool" where
  "HasSuffix s suffix \<longleftrightarrow>
     length suffix \<le> length s \<and> drop (length s - length suffix) s = suffix"

text \<open>The loop over the files of \<^verbatim>\<open>loadComponentSchemas\<close>, around the first pass.\<close>

fun loadComponentSchemas_files ::
  "('b, 'c, 's, 'd) library \<Rightarrow> dir_entry list \<Rightarrow> 'c \<Rightarrow> string list
     \<Rightarrow> panic + ('c \<times> string list \<times> load_error option)" where
  "loadComponentSchemas_files L [] c schemaNames = Inr (c, schemaNames, None)"
| "loadComponentSchemas_files L (file # rest) c schemaNames =
     (if IsDir file \<or> \<not> HasSuffix (FileName file) ''.yaml'' then
        loadComponentSchemas_files L rest c schemaNames
      else if FileName file = ''_index.yaml'' then
        loadComponentSchemas_files L rest c schemaNames
      else
        (case Content file of
           Unreadable err \<Rightarrow>
             Inr (c, schemaNames, Some (ReadingSchemaFile (FileName file) err))
         | Malformed err \<Rightarrow>
             Inr (c, schemaNames, Some (ParsingSchemaFile (FileName file) err))
         | Document defs \<Rightarrow>
             (case addResources L openapi_ns defs c schemaNames of
                Inl p \<Rightarrow> Inl p
              | Inr (c', schemaNames', Some err) \<Rightarrow> Inr (c', schemaNames', Some err)
              | Inr (c', schemaNames', None) \<Rightarrow>
                  loadComponentSchemas_files L rest c' schemaNames')))"

definition loadComponentSchemas ::
  "('b, 'c, 's, 'd) library \<Rightarrow> string + dir_entry list \<Rightarrow> ('c, 's) OpenAPIValidator
     \<Rightarrow> panic + (('c, 's) OpenAPIValidator \<times> load_error option)" where
  "loadComponentSchemas L dir v =
     (case dir of
        Inl err \<Rightarrow> Inr (v, Some (ReadingSchemasDir err))
      | Inr files \<Rightarrow>
          (case loadComponentSchemas_files L files (o_compiler v) [] of
             Inl p \<Rightarrow> Inl p
           | Inr (c, schemaNames, Some err) \<Rightarrow> Inr (v\<lparr>o_compiler := c\<rparr>, Some err)
           | Inr (c, schemaNames, None) \<Rightarrow>
               (case compileAll L openapi_ns schemaNames c (o_schemas v) of
                  (c', compiled, err) \<Rightarrow>
                    Inr (v\<lparr>o_compiler := c', o_schemas := compiled\<rparr>, err))))"

text \<open>\<^verbatim>\<open>(*OpenAPIValidator).loadSpec\<close>: the root document is parsed and not looked at.\<close>

definition loadSpec_openapi ::
  "('b, 'c, 's, 'd) library \<Rightarrow> openapi_files \<Rightarrow> ('c, 's) OpenAPIValidator
     \<Rightarrow> panic + (('c, 's) OpenAPIValidator \<times> load_error option)" where
  "loadSpec_openapi L fs v =
     (case Root fs of
        Unreadable err \<Rightarrow> Inr (v, Some (ReadingSpec err))
      | Malformed err \<Rightarrow> Inr (v, Some (ParsingSpec err))
      | Document spec \<Rightarrow> loadComponentSchemas L (SchemasDir fs) v)"

definition NewOpenAPIValidator ::
  "('b, 'c, 's, 'd) library \<Rightarrow> openapi_files \<Rightarrow> string
     \<Rightarrow> panic + (('c, 's) OpenAPIValidator option \<times> load_error option)" where
  "NewOpenAPIValidator L fs path =
     (case loadSpec_openapi L fs
             \<lparr>o_schemas = Map.empty, o_compiler = NewCompiler L, o_specPath = path,
              o_components = []\<rparr> of
        Inl p \<Rightarrow> Inl p
      | Inr (v, Some err) \<Rightarrow> Inr (None, Some err)
      | Inr (v, None) \<Rightarrow> Inr (Some v, None))"

definition ValidateResponse ::
  "('b, 'c, 's, 'd) library \<Rightarrow> ('c, 's) OpenAPIValidator \<Rightarrow> string \<Rightarrow> string
     \<Rightarrow> validate_error option \<times> ('c, 's) OpenAPIValidator" where
  "ValidateResponse L v schemaName body =
     (case o_schemas v schemaName of
        None \<Rightarrow> (Some (SchemaNotFound schemaName), v)
      | Some schema \<Rightarrow>
          (case Unmarshal L body of
             Inl err \<Rightarrow> (Some (ParsingResponseBody err), v)
           | Inr data \<Rightarrow>
               (case Validate L schema data of
                  Some err \<Rightarrow> (Some (SchemaValidationFailed err), v)
                | None \<Rightarrow> (None, v))))"

section \<open>HTTP contract test suite\<close>

record ContractTestResult =
  Endpoint :: string
  Method :: string
  c_Schema :: string
  c_Passed :: bool
  c_Error :: string
  RequestBody :: string
  Response :: string

record ('c, 's) ContractTestSuite =
  c_validator :: "('c, 's) OpenAPIValidator"
  c_results :: "ContractTestResult list"

text \<open>
  What the HTTP client answers to the request of one \<^verbatim>\<open>RunTest\<close>: the request cannot be
  built, it cannot be executed, or a response with its status code and the body as read.
\<close>

datatype http_exchange = NewRequestFailed string | DoFailed string | HTTPResponse int string

text \<open>The verb \<^verbatim>\<open>%d\<close> of \<^verbatim>\<open>fmt.Sprintf\<close>.\<close>

definition digit :: "nat \<Rightarrow> char" where
  "digit d = ''0123456789'' ! d"

fun nat_dec :: "nat \<Rightarrow> string" where
  "nat_dec n = (if n < 10 then [digit n] else nat_dec (n div 10) @ [digit (n mod 10)])"

definition int_dec :: "int \<Rightarrow> string" where
  "int_dec i = (if i < 0 then CHR ''-'' # nat_dec (nat (- i)) else nat_dec (nat i))"

definition NewContractTestSuite ::
  "('b, 'c, 's, 'd) library \<Rightarrow> openapi_files \<Rightarrow> string
     \<Rightarrow> panic + (('c, 's) ContractTestSuite option \<times> load_error option)" where
  "NewContractTestSuite L fs path =
     (case NewOpenAPIValidator L fs path of
        Inl p \<Rightarrow> Inl p
      | Inr (Some v, None) \<Rightarrow> Inr (Some \<lparr>c_validator = v, c_results = []\<rparr>, None)
      | Inr (_, err) \<Rightarrow> Inr (None, err))"

text \<open>
  \<^verbatim>\<open>(*ContractTestSuite).RunTest\<close>. The context, the client and the base URL are in
  \<open>exchange\<close>; \<open>body\<close> is \<open>None\<close> for a nil slice.
\<close>

definition RunTest ::
  "('b, 'c, 's, 'd) library \<Rightarrow> ('c, 's) ContractTestSuite \<Rightarrow> http_exchange \<Rightarrow> string \<Rightarrow> string
     \<Rightarrow> string option \<Rightarrow> int \<Rightarrow> string
     \<Rightarrow> ContractTestResult \<times> ('c, 's) ContractTestSuite" where
  "RunTest L s exchange method path body expectedStatus responseSchema =
     (let result = \<lparr>Endpoint = path, Method = method, c_Schema = responseSchema,
                    c_Passed = False, c_Error = [],
                    RequestBody = (case body of None \<Rightarrow> [] | Some b \<Rightarrow> b),
                    Response = []\<rparr>
      in case exchange of
           NewRequestFailed err \<Rightarrow>
             (let result = result\<lparr>c_Error := ''creating request: '' @ err\<rparr>
              in (result, s\<lparr>c_results := c_results s @ [result]\<rparr>))
         | DoFailed err \<Rightarrow>
             (let result = result\<lparr>c_Error := ''executing request: '' @ err\<rparr>
              in (result, s\<lparr>c_results := c_results s @ [result]\<rparr>))
         | HTTPResponse statusCode respBody \<Rightarrow>
             (let result = result\<lparr>Response := respBody\<rparr>
              in if statusCode \<noteq> expectedStatus then
                   (let result = result\<lparr>c_Error := ''expected status '' @ int_dec expectedStatus
                                            @ '', got '' @ int_dec statusCode\<rparr>
                    in (result, s\<lparr>c_results := c_results s @ [result]\<rparr>))
                 else if responseSchema \<noteq> [] \<and> length respBody > 0 then
                   (case ValidateResponse L (c_validator s) responseSchema respBody of
                      (Some err, v) \<Rightarrow>
                        (let result = result\<lparr>c_Error := ''schema validation: '' @ error_text err\<rparr>
                         in (result, s\<lparr>c_validator := v, c_results := c_results s @ [result]\<rparr>))
                    | (None, v) \<Rightarrow>
                        (let result = result\<lparr>c_Passed := True\<rparr>
                         in (result, s\<lparr>c_validator := v, c_results := c_results s @ [result]\<rparr>)))
                 else
                   (let result = result\<lparr>c_Passed := True\<rparr>
                    in (result, s\<lparr>c_results := c_results s @ [result]\<rparr>))))"

fun Summary_range_c :: "ContractTestResult list \<Rightarrow> int \<times> int \<Rightarrow> int \<times> int" where
  "Summary_range_c [] (passed, failed) = (passed, failed)"
| "Summary_range_c (r # rest) (passed, failed) =
     (if c_Passed r then Summary_range_c rest (passed + 1, failed)
      else Summary_range_c rest (passed, failed + 1))"

definition Summary_c :: "('c, 's) ContractTestSuite \<Rightarrow> int \<times> int" where
  "Summary_c s = Summary_range_c (c_results s) (0, 0)"

text \<open>A run of the suite: one \<^verbatim>\<open>RunTest\<close> per test case, in order.\<close>

fun RunTests ::
  "('b, 'c, 's, 'd) library \<Rightarrow> ('c, 's) ContractTestSuite
     \<Rightarrow> (http_exchange \<times> string \<times> string \<times> string option \<times> int \<times> string) list
     \<Rightarrow> ('c, 's) ContractTestSuite" where
  "RunTests L s [] = s"
| "RunTests L s ((exchange, method, path, body, expectedStatus, responseSchema) # rest) =
     RunTests L
       (snd (RunTest L s exchange method path body expectedStatus responseSchema)) rest"

section \<open>A registry that stores and resolves\<close>

text \<open>
  Modelled from the spec: the compiler behind \<^verbatim>\<open>AddResource\<close> and \<^verbatim>\<open>Compile\<close> is a
  third-party library and not part of the repository. Section 4.2 of the specification
  says what the engine expects of it: registration ``only stores the resource'' and
  does not resolve references; compilation ``resolves references transitively'' and
  fails ``with a resolution error naming the missing resource'' when a reference names
  a resource that was never registered. The specification does not restrict where a
  reference stands: the references of a resource are all its \<^verbatim>\<open>$ref\<close> keywords with a
  string value, under whatever keyword and at whatever depth of the document. So a
  reference that the translator copied through without rewriting it (one under
  \<^verbatim>\<open>oneOf\<close> or \<^verbatim>\<open>additionalProperties\<close>, say) is a reference of the resource as well.
\<close>

function (sequential)
  schema_refs :: "ymap \<Rightarrow> string list" and
  value_refs :: "yaml \<Rightarrow> string list" and
  values_refs :: "yaml list \<Rightarrow> string list"
where
  "schema_refs [] = []"
| "schema_refs ((k, val) # rest) =
     (if k = ''$ref'' then (case val of YStr ref \<Rightarrow> [ref] | _ \<Rightarrow> value_refs val)
      else value_refs val) @ schema_refs rest"
| "value_refs (YMap m) = schema_refs m"
| "value_refs (YSeq xs) = values_refs xs"
| "value_refs _ = []"
| "values_refs [] = []"
| "values_refs (x # xs) = value_refs x @ values_refs xs"
  by pat_completeness auto

termination
  by (relation "measure (\<lambda>x. case x of
        Inl m \<Rightarrow> msize m
      | Inr (Inl val) \<Rightarrow> size val
      | Inr (Inr xs) \<Rightarrow> size_list size xs)") auto

text \<open>
  Modelled from the spec: transitive resolution over the registered resources. \<open>todo\<close>
  holds the resource identifiers still to be resolved, \<open>seen\<close> those already entered
  (so that mutual references end); the result is the first identifier met that is not
  registered, if there is one.
\<close>

function unresolved ::
  "(string \<times> ymap) list \<Rightarrow> string list \<Rightarrow> string list \<Rightarrow> string option" where
  "unresolved store seen [] = None"
| "unresolved store seen (url # todo) =
     (if url \<in> set seen then unresolved store seen todo
      else (case map_of store url of
              None \<Rightarrow> Some url
            | Some doc \<Rightarrow> unresolved store (url # seen) (schema_refs doc @ todo)))"
  by pat_completeness auto

termination
proof (relation "measures [\<lambda>(store, seen, todo). card (fst ` set store - set seen),
                           \<lambda>(store, seen, todo). length todo]", goal_cases)
  case 1
  show ?case by simp
next
  case (2 store seen url todo)
  then show ?case by simp
next
  case (3 store seen url todo doc)
  have "url \<in> fst ` set store"
    using 3(2) by (metis map_of_eq_None_iff option.distinct(1))
  with 3(1) have "fst ` set store - set (url # seen) \<subset> fst ` set store - set seen"
    by auto
  then have "card (fst ` set store - set (url # seen)) < card (fst ` set store - set seen)"
    by (intro psubset_card_mono) auto
  then show ?case by simp
qed

text \<open>
  \<^verbatim>\<open>json.Marshal\<close> returns an error for a value it has no encoding for: a float that is
  not finite, a map whose keys are not strings.
\<close>

fun serializable :: "yaml \<Rightarrow> bool" where
  "serializable YNonFinite = False"
| "serializable (YAnyMap kvs) = False"
| "serializable (YSeq xs) = (\<forall>x \<in> set xs. serializable x)"
| "serializable (YMap m) = (\<forall>(k, v) \<in> set m. serializable v)"
| "serializable _ = True"

text \<open>
  Modelled from the spec: the library instance built from the functions above. The
  compiler's state is the list of registered resources, a serialized schema is the
  document itself, and a compiled schema is the document of its resource. Decoding and
  checking a payload are left open (\<open>unmarshal\<close>, \<open>validate\<close>).
\<close>

definition registry ::
  "(string \<Rightarrow> string + 'd) \<Rightarrow> (ymap \<Rightarrow> 'd \<Rightarrow> string option)
     \<Rightarrow> (ymap, (string \<times> ymap) list, ymap, 'd) library" where
  "registry unmarshal validate =
     \<lparr>Marshal = (\<lambda>m. if serializable (YMap m) then Inr m
                       else Inl ''json: unsupported value''),
      NewCompiler = [],
      AddResource = (\<lambda>c url doc. (AList.update url doc c, None)),
      Compile = (\<lambda>c url.
        case unresolved c [] [url] of
          Some missing \<Rightarrow> (c, Inl (''unresolved reference '' @ missing))
        | None \<Rightarrow>
            (case map_of c url of
               Some doc \<Rightarrow> (c, Inr doc)
             | None \<Rightarrow> (c, Inl (''unresolved reference '' @ url)))),
      Unmarshal = unmarshal,
      Validate = validate\<rparr>"

section \<open>What the translator stores\<close>

text \<open>
  The body of the loop of \<^verbatim>\<open>toJSONSchema\<close> as a function of the entry it visits: the
  value it stores under the entry's key, \<open>None\<close> when it stores nothing, or the panic.
\<close>

definition keyword_value :: "string \<Rightarrow> string \<Rightarrow> yaml \<Rightarrow> panic + yaml option" where
  "keyword_value ns k val =
     (if k = ''$ref'' then
        (case val of
           YStr ref \<Rightarrow> Inr (Some (YStr (ns @ last (Split ref CHR ''/''))))
         | _ \<Rightarrow> Inl (InterfaceConversion val))
      else if k = ''properties'' then
        (case val of
           YMap props \<Rightarrow>
             (case convertProperties ns props of
                Inl p \<Rightarrow> Inl p | Inr converted \<Rightarrow> Inr (Some (YMap converted)))
         | _ \<Rightarrow> Inr None)
      else if k = ''items'' then
        (case val of
           YMap items \<Rightarrow>
             (case toJSONSchema ns items of
                Inl p \<Rightarrow> Inl p | Inr converted \<Rightarrow> Inr (Some (YMap converted)))
         | _ \<Rightarrow> Inr None)
      else if k = ''allOf'' then
        (case val of
           YSeq allOf \<Rightarrow>
             (case convertAllOf ns allOf of
                Inl p \<Rightarrow> Inl p | Inr converted \<Rightarrow> Inr (Some (YSeq converted)))
         | _ \<Rightarrow> Inr None)
      else Inr (Some val))"

text \<open>
  One slot of a translated \<^verbatim>\<open>allOf\<close>: the translation of the item in that place when
  the item is a map, and nil otherwise.
\<close>

definition allOf_slot :: "string \<Rightarrow> yaml \<Rightarrow> yaml \<Rightarrow> bool" where
  "allOf_slot ns item out \<longleftrightarrow>
     (case item of
        YMap itemMap \<Rightarrow>
          (case toJSONSchema ns itemMap of Inl p \<Rightarrow> False | Inr t \<Rightarrow> out = YMap t)
      | _ \<Rightarrow> out = YNull)"

section \<open>Notions of the statements\<close>

text \<open>
  An entry of the schema section that the first pass passes over: its value is no map,
  or it is a map whose translation \<^verbatim>\<open>json.Marshal\<close> rejects.
\<close>

definition passed_over :: "('b, 'c, 's, 'd) library \<Rightarrow> string \<Rightarrow> yaml \<Rightarrow> bool" where
  "passed_over L ns schemaDef \<longleftrightarrow>
     (case schemaDef of
        YMap schemaMap \<Rightarrow>
          (case toJSONSchema ns schemaMap of
             Inl p \<Rightarrow> False
           | Inr jsonSchema \<Rightarrow>
               (case Marshal L jsonSchema of Inl err \<Rightarrow> True | Inr jsonBytes \<Rightarrow> False))
      | _ \<Rightarrow> True)"

text \<open>The schema names that the files of a schema directory declare.\<close>

definition declared :: "dir_entry list \<Rightarrow> string set" where
  "declared files =
     (\<Union>file \<in> set files. case Content file of Document defs \<Rightarrow> fst ` set defs | _ \<Rightarrow> {})"



text \<open>
  A library that works as \<open>L\<close> does and writes down, next to the compiler's state,
  every \<^verbatim>\<open>AddResource\<close> and every \<^verbatim>\<open>Compile\<close> it is asked for, in order.
\<close>

datatype library_call = Added string | Compiled string

definition traced ::
  "('b, 'c, 's, 'd) library \<Rightarrow> ('b, 'c \<times> library_call list, 's, 'd) library" where
  "traced L =
     \<lparr>Marshal = Marshal L,
      NewCompiler = (NewCompiler L, []),
      AddResource = (\<lambda>(c, log) url jsonBytes.
        case AddResource L c url jsonBytes of (c', err) \<Rightarrow> ((c', log @ [Added url]), err)),
      Compile = (\<lambda>(c, log) url.
        case Compile L c url of (c', res) \<Rightarrow> ((c', log @ [Compiled url]), res)),
      Unmarshal = Unmarshal L,
      Validate = Validate L\<rparr>"

section \<open>Worked documents\<close>

text \<open>
  An event specification with one channel and three schemas. \<open>Order\<close> refers to
  \<open>OrderItem\<close>, which is declared after it, and \<open>OrderItem\<close> and \<open>Bundle\<close> refer to
  each other.
\<close>

definition orders_spec :: ymap where
  "orders_spec =
     [(''channels'', YMap
        [(''orders/ingest'', YMap [(''address'', YStr ''orders.ingest''),
                                   (''description'', YStr ''Incoming orders'')])]),
      (''components'', YMap
        [(''schemas'', YMap
           [(''Order'', YMap
              [(''type'', YStr ''object''),
               (''required'', YSeq [YStr ''customerId'']),
               (''properties'', YMap
                  [(''customerId'', YMap [(''type'', YStr ''string'')]),
                   (''items'', YMap
                      [(''type'', YStr ''array''),
                       (''items'', YMap
                          [(''$ref'', YStr ''#/components/schemas/OrderItem'')])])])]),
            (''OrderItem'', YMap
              [(''type'', YStr ''object''),
               (''allOf'', YSeq [YMap [(''$ref'', YStr ''#/components/schemas/Bundle'')]])]),
            (''Bundle'', YMap
              [(''type'', YStr ''object''),
               (''properties'', YMap
                  [(''parts'', YMap [(''$ref'', YStr ''#/components/schemas/OrderItem'')])])])])])]"

text \<open>
  A decoder and a checker for the worked examples: the decoder knows the payloads
  \<^verbatim>\<open>{}\<close> and \<^verbatim>\<open>null\<close> and rejects every other byte string; the checker reports the first
  name of \<^verbatim>\<open>required\<close> that an object lacks.
\<close>

definition example_unmarshal :: "string \<Rightarrow> string + yaml" where
  "example_unmarshal payload =
     (if payload = ''{}'' then Inr (YMap [])
      else if payload = ''null'' then Inr YNull
      else Inl ''invalid character'')"

fun first_missing :: "yaml list \<Rightarrow> ymap \<Rightarrow> string option" where
  "first_missing [] obj = None"
| "first_missing (YStr field # rest) obj =
     (if map_of obj field = None then Some (''missing properties: '' @ field)
      else first_missing rest obj)"
| "first_missing (_ # rest) obj = first_missing rest obj"

definition example_validate :: "ymap \<Rightarrow> yaml \<Rightarrow> string option" where
  "example_validate schema data =
     (case (map_of schema ''required'', data) of
        (Some (YSeq required), YMap obj) \<Rightarrow> first_missing required obj
      | _ \<Rightarrow> None)"

definition example_library ::
  "(ymap, (string \<times> ymap) list, ymap, yaml) library" where
  "example_library = registry example_unmarshal example_validate"

text \<open>The validator that loading \<open>orders_spec\<close> leaves behind.\<close>

definition orders_validator :: "((string \<times> ymap) list, ymap) AsyncAPIValidator" where
  "orders_validator =
     (case loadSpec example_library (Document orders_spec)
             \<lparr>schemas = Map.empty, channels = Map.empty,
              compiler = NewCompiler example_library, specPath = ''asyncapi.yaml''\<rparr> of
        Inr (v, _) \<Rightarrow> v)"

text \<open>
  A REST specification: a root document and a schema directory with an index file, a
  subdirectory, a file of another kind and two schema files. Both schema files declare
  a schema named \<open>Error\<close>.
\<close>

definition health_yaml :: ymap where
  "health_yaml =
     [(''HealthResponse'', YMap
         [(''type'', YStr ''object''),
          (''required'', YSeq [YStr ''status'']),
          (''properties'', YMap
             [(''status'', YMap [(''type'', YStr ''string'')]),
              (''error'', YMap [(''$ref'', YStr ''#/components/schemas/Error'')])])]),
      (''Error'', YMap [(''type'', YStr ''object''), (''required'', YSeq [YStr ''code''])])]"

definition orders_yaml :: ymap where
  "orders_yaml =
     [(''Error'', YMap [(''type'', YStr ''object''), (''required'', YSeq [YStr ''message''])])]"

definition rest_files :: openapi_files where
  "rest_files =
     \<lparr>Root = Document [(''openapi'', YStr ''3.1.0'')],
      SchemasDir = Inr
        [\<lparr>FileName = ''_index.yaml'', IsDir = False, Content = Malformed ''not a mapping''\<rparr>,
         \<lparr>FileName = ''archive.yaml'', IsDir = True, Content = Unreadable ''is a directory''\<rparr>,
         \<lparr>FileName = ''health.yaml'', IsDir = False, Content = Document health_yaml\<rparr>,
         \<lparr>FileName = ''notes.txt'', IsDir = False, Content = Malformed ''not YAML''\<rparr>,
         \<lparr>FileName = ''orders.yaml'', IsDir = False, Content = Document orders_yaml\<rparr>]\<rparr>"

definition rest_validator :: "((string \<times> ymap) list, ymap) OpenAPIValidator" where
  "rest_validator =
     (case loadSpec_openapi example_library rest_files
             \<lparr>o_schemas = Map.empty, o_compiler = NewCompiler example_library,
              o_specPath = ''openapi.yaml'', o_components = []\<rparr> of
        Inr (v, _) \<Rightarrow> v)"

text \<open>A schema node with every keyword the translator treats, and its translation.\<close>

definition composite_node :: ymap where
  "composite_node =
     [(''type'', YStr ''object''),
      (''$ref'', YStr ''#/components/schemas/OrderItem''),
      (''properties'', YMap [(''sku'', YMap [(''type'', YStr ''string'')]),
                             (''note'', YStr ''free text'')]),
      (''items'', YMap [(''$ref'', YStr ''Money'')]),
      (''allOf'', YSeq [YMap [(''required'', YSeq [YStr ''x''])], YStr ''stray'',
                        YMap [(''required'', YSeq [YStr ''y''])]]),
      (''required'', YSeq [YStr ''sku''])]"

definition composite_translated :: ymap where
  "composite_translated =
     [(''$schema'', YStr draft2020),
      (''type'', YStr ''object''),
      (''$ref'', YStr ''synapse://asyncapi/OrderItem''),
      (''properties'', YMap [(''sku'', YMap [(''$schema'', YStr draft2020),
                                             (''type'', YStr ''string'')])]),
      (''items'', YMap [(''$schema'', YStr draft2020),
                        (''$ref'', YStr ''synapse://asyncapi/Money'')]),
      (''allOf'', YSeq [YMap [(''$schema'', YStr draft2020), (''required'', YSeq [YStr ''x''])],
                        YNull,
                        YMap [(''$schema'', YStr draft2020), (''required'', YSeq [YStr ''y''])]]),
      (''required'', YSeq [YStr ''sku''])]"

text \<open>
  A schema section with an entry that does not serialize (\<open>Limits\<close>) and an entry that
  is no map (\<open>Version\<close>), the same section without \<open>Limits\<close>, and the validators that
  loading them gives.
\<close>

definition sloppy_schemas :: ymap where
  "sloppy_schemas =
     [(''Ping'', YMap [(''type'', YStr ''object'')]),
      (''Limits'', YMap [(''type'', YStr ''number''), (''maximum'', YNonFinite)]),
      (''Version'', YStr ''1.0'')]"

definition sloppy_spec :: ymap where
  "sloppy_spec = [(''components'', YMap [(''schemas'', YMap sloppy_schemas)])]"

definition tidy_spec :: ymap where
  "tidy_spec =
     [(''components'', YMap [(''schemas'', YMap
        [(''Ping'', YMap [(''type'', YStr ''object'')]), (''Version'', YStr ''1.0'')])])]"

definition sloppy_files :: openapi_files where
  "sloppy_files =
     \<lparr>Root = Document [],
      SchemasDir = Inr [\<lparr>FileName = ''common.yaml'', IsDir = False,
                         Content = Document sloppy_schemas\<rparr>]\<rparr>"

definition ping_validator :: "((string \<times> ymap) list, ymap) AsyncAPIValidator" where
  "ping_validator =
     \<lparr>schemas = [''Ping'' \<mapsto> [(''$schema'', YStr draft2020), (''type'', YStr ''object'')]],
      channels = Map.empty,
      compiler = [(''synapse://asyncapi/Ping'',
                   [(''$schema'', YStr draft2020), (''type'', YStr ''object'')])],
      specPath = ''asyncapi.yaml''\<rparr>"

definition ping_validator_rest :: "((string \<times> ymap) list, ymap) OpenAPIValidator" where
  "ping_validator_rest =
     \<lparr>o_schemas = [''Ping'' \<mapsto> [(''$schema'', YStr draft2020), (''type'', YStr ''object'')]],
      o_compiler = [(''synapse://schemas/Ping'',
                     [(''$schema'', YStr draft2020), (''type'', YStr ''object'')])],
      o_specPath = ''openapi.yaml'', o_components = []\<rparr>"






definition rest_traced ::
  "((string \<times> ymap) list \<times> library_call list, ymap) OpenAPIValidator" where
  "rest_traced =
     (case loadSpec_openapi (traced example_library) rest_files
             \<lparr>o_schemas = Map.empty, o_compiler = (NewCompiler example_library, []),
              o_specPath = ''openapi.yaml'', o_components = []\<rparr> of
        Inr (v, _) \<Rightarrow> v)"


text \<open>Two schema files that declare the same name with different bodies.\<close>

definition first_file :: dir_entry where
  "first_file =
     \<lparr>FileName = ''health.yaml'', IsDir = False,
      Content = Document [(''Error'', YMap [(''required'', YSeq [YStr ''code''])])]\<rparr>"

definition second_file :: dir_entry where
  "second_file =
     \<lparr>FileName = ''orders.yaml'', IsDir = False,
      Content = Document [(''Error'', YMap [(''required'', YSeq [YStr ''message''])])]\<rparr>"

section \<open>The worked documents load\<close>

lemmas example_defs =
  example_library_def registry_def example_unmarshal_def example_validate_def
  orders_spec_def componentSchemas_def asyncapi_ns_def draft2020_def

lemmas rest_defs =
  loadSpec_openapi_def loadComponentSchemas_def rest_files_def health_yaml_def
  orders_yaml_def HasSuffix_def openapi_ns_def


lemma orders_schemas:
  "schemas orders_validator ''Order'' =
     Some [(''$schema'', YStr draft2020), (''type'', YStr ''object''),
           (''required'', YSeq [YStr ''customerId'']),
           (''properties'', YMap
              [(''customerId'', YMap [(''$schema'', YStr draft2020), (''type'', YStr ''string'')]),
               (''items'', YMap
                  [(''$schema'', YStr draft2020), (''type'', YStr ''array''),
                   (''items'', YMap [(''$schema'', YStr draft2020),
                                     (''$ref'', YStr ''synapse://asyncapi/OrderItem'')])])])]"
  "schemas orders_validator ''NoSuchSchema'' = None"
  by (simp_all add: orders_validator_def loadSpec_def example_defs)

lemma rest_loaded:
  "NewOpenAPIValidator example_library rest_files ''openapi.yaml''
     = Inr (Some rest_validator, None)"
  by (simp add: NewOpenAPIValidator_def rest_validator_def rest_defs example_defs)

lemma rest_schemas:
  "o_schemas rest_validator ''Error'' =
     Some [(''$schema'', YStr draft2020), (''type'', YStr ''object''),
           (''required'', YSeq [YStr ''message''])]"
  "o_schemas rest_validator ''NoSuchSchema'' = None"
  by (simp_all add: rest_validator_def rest_defs example_defs)

section \<open>Validation facade\<close>

text \<open>
  Claim C4. For every schema name that is not in the map of compiled validators and
  every payload, \<^verbatim>\<open>ValidateMessage\<close> and \<^verbatim>\<open>ValidateResponse\<close> return the error
  ``schema not found'' for that name and leave the validator as it was, whatever the
  libraries compute; a suite records the call as not passed. An unregistered name is
  never a pass.
\<close>

theorem unknown_schema_is_an_error:
  "(schemas v schemaName = None \<longrightarrow>
      ValidateMessage L v schemaName payload = (Some (SchemaNotFound schemaName), v))
   \<and> (o_schemas w schemaName = None \<longrightarrow>
      ValidateResponse L w schemaName payload = (Some (SchemaNotFound schemaName), w))
   \<and> (schemas (validator s) schemaName = None \<longrightarrow>
      \<not> Passed (fst (ValidateEvent L s channel schemaName payload)))"
  by (simp add: ValidateMessage_def ValidateResponse_def ValidateEvent_def Let_def)

theorem unknown_schema_is_an_error_witness:
  "schemas orders_validator ''NoSuchSchema'' = None
   \<and> ValidateMessage example_library orders_validator ''NoSuchSchema'' ''{}''
       = (Some (SchemaNotFound ''NoSuchSchema''), orders_validator)
   \<and> o_schemas rest_validator ''NoSuchSchema'' = None
   \<and> ValidateResponse example_library rest_validator ''NoSuchSchema'' ''{}''
       = (Some (SchemaNotFound ''NoSuchSchema''), rest_validator)
   \<and> schemas (validator \<lparr>validator = orders_validator, results = []\<rparr>) ''NoSuchSchema'' = None
   \<and> \<not> Passed (fst (ValidateEvent example_library \<lparr>validator = orders_validator, results = []\<rparr>
                      ''orders/ingest'' ''NoSuchSchema'' ''{}''))"
  using unknown_schema_is_an_error [of orders_validator "''NoSuchSchema''" example_library "''{}''"
          rest_validator "\<lparr>validator = orders_validator, results = []\<rparr>" "''orders/ingest''"]
  by (simp add: orders_schemas rest_schemas)

text \<open>
  Claim C6. Validation is idempotent and free of side effects: a call of
  \<^verbatim>\<open>ValidateMessage\<close> (or \<^verbatim>\<open>ValidateResponse\<close>) leaves the validator, with its schema map,
  its channel map and its compiler, exactly as it found it, and a second call with the
  same schema name and payload on the validator the first call left returns the same
  result. Through a suite, \<^verbatim>\<open>ValidateEvent\<close> leaves the suite's validator unchanged and
  a repeated call returns an identical result record.
\<close>

theorem validate_idempotent:
  "snd (ValidateMessage L v S P) = v
   \<and> fst (ValidateMessage L (snd (ValidateMessage L v S P)) S P) = fst (ValidateMessage L v S P)
   \<and> snd (ValidateResponse L w S P) = w
   \<and> fst (ValidateResponse L (snd (ValidateResponse L w S P)) S P)
       = fst (ValidateResponse L w S P)
   \<and> validator (snd (ValidateEvent L s ch S P)) = validator s
   \<and> fst (ValidateEvent L (snd (ValidateEvent L s ch S P)) ch S P)
       = fst (ValidateEvent L s ch S P)"
  by (simp add: ValidateMessage_def ValidateResponse_def ValidateEvent_def Let_def
           split: option.splits sum.splits)

theorem validate_idempotent_witness:
  "ValidateMessage example_library orders_validator ''Order'' ''{}''
     = (Some (SchemaValidationFailed ''missing properties: customerId''), orders_validator)
   \<and> fst (ValidateMessage example_library
             (snd (ValidateMessage example_library orders_validator ''Order'' ''{}''))
             ''Order'' ''{}'')
       = Some (SchemaValidationFailed ''missing properties: customerId'')"
  using validate_idempotent [of example_library orders_validator "''Order''" "''{}''"]
  by (simp add: ValidateMessage_def orders_schemas example_defs)



section \<open>Contract test suites\<close>

lemma Summary_range_sum:
  "fst (Summary_range rs (p, f)) + snd (Summary_range rs (p, f)) = p + f + int (length rs)"
  by (induction rs arbitrary: p f) auto

lemma Summary_range_c_sum:
  "fst (Summary_range_c rs (p, f)) + snd (Summary_range_c rs (p, f)) = p + f + int (length rs)"
  by (induction rs arbitrary: p f) auto

lemma error_text_nonempty: "error_text e \<noteq> []"
  by (cases e) simp_all

lemma ValidateEvent_appends:
  "results (snd (ValidateEvent L s ch S P)) = results s @ [fst (ValidateEvent L s ch S P)]"
  by (simp add: ValidateEvent_def Let_def split: option.splits prod.splits)

lemma ValidateEvent_passed:
  "Passed (fst (ValidateEvent L s ch S P)) \<longleftrightarrow> Error (fst (ValidateEvent L s ch S P)) = []"
  by (simp add: ValidateEvent_def Let_def error_text_nonempty split: option.splits prod.splits)

lemma RunTest_appends:
  "c_results (snd (RunTest L s x m p b e S)) = c_results s @ [fst (RunTest L s x m p b e S)]"
  by (simp add: RunTest_def Let_def split: option.splits prod.splits http_exchange.splits)

lemma RunTest_passed:
  "c_Passed (fst (RunTest L s x m p b e S)) \<longleftrightarrow> c_Error (fst (RunTest L s x m p b e S)) = []"
  by (simp add: RunTest_def Let_def error_text_nonempty
           split: option.splits prod.splits http_exchange.splits)

lemma ValidateEvents_results:
  "\<exists>new. results (ValidateEvents L s calls) = results s @ new \<and> length new = length calls"
proof (induction calls arbitrary: s)
  case Nil
  show ?case by simp
next
  case (Cons call calls)
  obtain ch S P where call: "call = (ch, S, P)" by (cases call)
  let ?s' = "snd (ValidateEvent L s ch S P)"
  obtain new where new: "results (ValidateEvents L ?s' calls) = results ?s' @ new"
      "length new = length calls"
    using Cons.IH by blast
  have "results (ValidateEvents L s (call # calls))
          = results s @ (fst (ValidateEvent L s ch S P) # new)"
    using new(1) by (simp add: call ValidateEvent_appends)
  then show ?case using new(2) by (metis length_Cons)
qed

lemma RunTests_results:
  "\<exists>new. c_results (RunTests L s calls) = c_results s @ new \<and> length new = length calls"
proof (induction calls arbitrary: s)
  case Nil
  show ?case by simp
next
  case (Cons call calls)
  obtain x m p b e S where call: "call = (x, m, p, b, e, S)" by (cases call)
  let ?s' = "snd (RunTest L s x m p b e S)"
  obtain new where new: "c_results (RunTests L ?s' calls) = c_results ?s' @ new"
      "length new = length calls"
    using Cons.IH by blast
  have "c_results (RunTests L s (call # calls))
          = c_results s @ (fst (RunTest L s x m p b e S) # new)"
    using new(1) by (simp add: call RunTest_appends)
  then show ?case using new(2) by (metis length_Cons)
qed

text \<open>
  Claim C9. Every call of \<^verbatim>\<open>ValidateEvent\<close> and of \<^verbatim>\<open>RunTest\<close> appends exactly one result,
  the one it returns, to the results of its suite, on every path, and leaves the earlier
  results in place; in the returned result \<^verbatim>\<open>Passed\<close> holds exactly when \<^verbatim>\<open>Error\<close> is
  the empty string. Hence after any run of calls on a new suite the two counts of
  \<^verbatim>\<open>Summary\<close> add up to the number of calls, and after any run on any suite the results
  it had are still its first results.
\<close>

theorem suite_bookkeeping:
  "results (snd (ValidateEvent L s ch S P)) = results s @ [fst (ValidateEvent L s ch S P)]
   \<and> (Passed (fst (ValidateEvent L s ch S P)) \<longleftrightarrow> Error (fst (ValidateEvent L s ch S P)) = [])
   \<and> c_results (snd (RunTest L t x m p b e R)) = c_results t @ [fst (RunTest L t x m p b e R)]
   \<and> (c_Passed (fst (RunTest L t x m p b e R)) \<longleftrightarrow> c_Error (fst (RunTest L t x m p b e R)) = [])
   \<and> fst (Summary (ValidateEvents L \<lparr>validator = v, results = []\<rparr> events))
       + snd (Summary (ValidateEvents L \<lparr>validator = v, results = []\<rparr> events))
       = int (length events)
   \<and> fst (Summary_c (RunTests L \<lparr>c_validator = w, c_results = []\<rparr> tests))
       + snd (Summary_c (RunTests L \<lparr>c_validator = w, c_results = []\<rparr> tests))
       = int (length tests)
   \<and> take (length (results s)) (results (ValidateEvents L s events)) = results s
   \<and> take (length (c_results t)) (c_results (RunTests L t tests)) = c_results t"
proof -
  obtain new where new: "results (ValidateEvents L s events) = results s @ new"
    using ValidateEvents_results by blast
  obtain new0 where new0:
      "results (ValidateEvents L \<lparr>validator = v, results = []\<rparr> events) = new0"
      "length new0 = length events"
    using ValidateEvents_results [of L "\<lparr>validator = v, results = []\<rparr>" events] by auto
  obtain cnew where cnew: "c_results (RunTests L t tests) = c_results t @ cnew"
    using RunTests_results by blast
  obtain cnew0 where cnew0:
      "c_results (RunTests L \<lparr>c_validator = w, c_results = []\<rparr> tests) = cnew0"
      "length cnew0 = length tests"
    using RunTests_results [of L "\<lparr>c_validator = w, c_results = []\<rparr>" tests] by auto
  show ?thesis
    by (simp add: ValidateEvent_appends ValidateEvent_passed RunTest_appends RunTest_passed
          Summary_def Summary_c_def Summary_range_sum Summary_range_c_sum new new0 cnew cnew0)
qed

theorem suite_bookkeeping_witness:
  "fst (Summary (ValidateEvents example_library \<lparr>validator = orders_validator, results = []\<rparr>
      [(''orders/ingest'', ''Order'', ''{}''), (''orders/ingest'', ''Bundle'', ''{}''),
       (''orders/ingest'', ''Order'', ''{''), (''orders/ingest'', ''NoSuchSchema'', ''{}'')]))
   + snd (Summary (ValidateEvents example_library \<lparr>validator = orders_validator, results = []\<rparr>
      [(''orders/ingest'', ''Order'', ''{}''), (''orders/ingest'', ''Bundle'', ''{}''),
       (''orders/ingest'', ''Order'', ''{''), (''orders/ingest'', ''NoSuchSchema'', ''{}'')]))
     = 4
   \<and> Summary (ValidateEvents example_library \<lparr>validator = orders_validator, results = []\<rparr>
      [(''orders/ingest'', ''Order'', ''{}''), (''orders/ingest'', ''Bundle'', ''{}''),
       (''orders/ingest'', ''Order'', ''{''), (''orders/ingest'', ''NoSuchSchema'', ''{}'')])
     = (1, 3)
   \<and> fst (RunTest example_library \<lparr>c_validator = rest_validator, c_results = []\<rparr>
            (HTTPResponse 503 ''{}'') ''GET'' ''/health'' None 200 ''HealthResponse'')
       = \<lparr>Endpoint = ''/health'', Method = ''GET'', c_Schema = ''HealthResponse'',
          c_Passed = False, c_Error = ''expected status 200, got 503'', RequestBody = [],
          Response = ''{}''\<rparr>"
proof (intro conjI)
  let ?events = "[(''orders/ingest'', ''Order'', ''{}''), (''orders/ingest'', ''Bundle'', ''{}''),
       (''orders/ingest'', ''Order'', ''{''), (''orders/ingest'', ''NoSuchSchema'', ''{}'')]"
  show "fst (Summary (ValidateEvents example_library
                 \<lparr>validator = orders_validator, results = []\<rparr> ?events))
           + snd (Summary (ValidateEvents example_library
                 \<lparr>validator = orders_validator, results = []\<rparr> ?events)) = 4"
    using suite_bookkeeping [of example_library _ _ _ _ _ _ _ _ _ _ _ orders_validator ?events]
    by simp
  show "Summary (ValidateEvents example_library
                 \<lparr>validator = orders_validator, results = []\<rparr> ?events) = (1, 3)"
    by (simp add: Summary_def ValidateEvent_def ValidateMessage_def Let_def
          orders_validator_def loadSpec_def example_defs)
  have dec: "int_dec 200 = ''200''" "int_dec 503 = ''503''"
    by (simp_all add: int_dec_def digit_def)
  show "fst (RunTest example_library \<lparr>c_validator = rest_validator, c_results = []\<rparr>
            (HTTPResponse 503 ''{}'') ''GET'' ''/health'' None 200 ''HealthResponse'')
       = \<lparr>Endpoint = ''/health'', Method = ''GET'', c_Schema = ''HealthResponse'',
          c_Passed = False, c_Error = ''expected status 200, got 503'', RequestBody = [],
          Response = ''{}''\<rparr>"
    by (simp add: RunTest_def Let_def dec)
qed

section \<open>Translator: unchecked reference values\<close>

text \<open>
  Claim C8. The translator always terminates (the definition of \<open>toJSONSchema\<close> above is
  accepted with a termination proof), and it tolerates \<^verbatim>\<open>properties\<close>, \<^verbatim>\<open>items\<close> and
  \<^verbatim>\<open>allOf\<close> values of an unexpected shape through checked type assertions. The value of
  \<^verbatim>\<open>$ref\<close> is asserted to be a string without a check: on a node whose \<^verbatim>\<open>$ref\<close> is not a
  string the translator panics and returns no node.
\<close>

theorem nonstring_ref_panics:
  "toJSONSchema asyncapi_ns [(''$ref'', YNum 42)] = Inl (InterfaceConversion (YNum 42))
   \<and> toJSONSchema openapi_ns [(''type'', YStr ''object''), (''$ref'', YNull)]
       = Inl (InterfaceConversion YNull)
   \<and> toJSONSchema asyncapi_ns [(''properties'', YNum 1), (''items'', YSeq []), (''allOf'', YNull)]
       = Inr [(''$schema'', YStr draft2020)]"
  by simp

section \<open>Translator: what each keyword becomes\<close>

lemma Split_nonempty: "Split s sep \<noteq> []"
  by (induction s) (auto split: list.splits)

lemma Split_no_sep: "sep \<notin> set s \<Longrightarrow> Split s sep = [s]"
  by (induction s) auto

lemma Split_sep_length: "sep \<in> set s \<Longrightarrow> length (Split s sep) \<ge> 2"
  apply (induction s)
   apply simp
  subgoal for a s
    using Split_nonempty[of s sep]
    by (cases "Split s sep"; cases "sep \<in> set s") (auto simp: Split_no_sep split: list.splits)
  done

lemma last_Split:
  "last (Split s sep) = rev (takeWhile (\<lambda>c. c \<noteq> sep) (rev s))"
proof (induction s)
  case Nil
  show ?case by simp
next
  case (Cons c cs)
  show ?case
  proof (cases "c = sep")
    case True
    then show ?thesis
      using Cons Split_nonempty [of cs sep] by (simp add: takeWhile_append)
  next
    case False
    show ?thesis
    proof (cases "sep \<in> set cs")
      case True
      then have "length (Split cs sep) \<ge> 2" by (rule Split_sep_length)
      then obtain p q ps where "Split cs sep = p # q # ps"
        by (cases "Split cs sep"; cases "tl (Split cs sep)") auto
      with Cons True False show ?thesis
        by (auto simp: takeWhile_append)
    next
      case nosep: False
      then have "Split cs sep = [cs]" by (rule Split_no_sep)
      with False nosep show ?thesis
        by (simp add: takeWhile_append)
    qed
  qed
qed


lemma toJSONSchema_range_step:
  "toJSONSchema_range ns ((k, val) # rest) result =
     (case keyword_value ns k val of
        Inl p \<Rightarrow> Inl p
      | Inr None \<Rightarrow> toJSONSchema_range ns rest result
      | Inr (Some x) \<Rightarrow> toJSONSchema_range ns rest (AList.update k x result))"
  by (simp add: keyword_value_def split: yaml.splits sum.splits)

lemma range_untouched:
  "toJSONSchema_range ns schema acc = Inr r \<Longrightarrow> k \<notin> fst ` set schema
     \<Longrightarrow> map_of r k = map_of acc k"
proof (induction schema arbitrary: acc)
  case Nil
  then show ?case by simp
next
  case (Cons e schema)
  obtain k' v where e: "e = (k', v)" by (cases e)
  from Cons.prems(2) have ne: "k \<noteq> k'" and notin: "k \<notin> fst ` set schema"
    by (auto simp: e)
  show ?case
  proof (cases "keyword_value ns k' v")
    case (Inl p)
    with Cons.prems(1) show ?thesis
      by (simp only: e toJSONSchema_range_step) simp
  next
    case (Inr opt)
    show ?thesis
    proof (cases opt)
      case None
      with Inr Cons.prems(1) have "toJSONSchema_range ns schema acc = Inr r"
        by (simp only: e toJSONSchema_range_step) simp
      then show ?thesis using Cons.IH notin by blast
    next
      case (Some x)
      with Inr Cons.prems(1) have "toJSONSchema_range ns schema (AList.update k' x acc) = Inr r"
        by (simp only: e toJSONSchema_range_step) simp
      then have "map_of r k = map_of (AList.update k' x acc) k"
        using Cons.IH notin by blast
      then show ?thesis using ne by (simp add: update_conv')
    qed
  qed
qed

lemma range_lookup:
  "toJSONSchema_range ns schema acc = Inr r \<Longrightarrow> distinct (map fst schema)
     \<Longrightarrow> (k, val) \<in> set schema
     \<Longrightarrow> (\<exists>x. keyword_value ns k val = Inr (Some x) \<and> map_of r k = Some x)
         \<or> (keyword_value ns k val = Inr None \<and> map_of r k = map_of acc k)"
proof (induction schema arbitrary: acc)
  case Nil
  then show ?case by simp
next
  case (Cons e schema)
  obtain k' v where e: "e = (k', v)" by (cases e)
  from Cons.prems(2) have fresh: "k' \<notin> fst ` set schema" and dist: "distinct (map fst schema)"
    by (auto simp: e)
  show ?case
  proof (cases "keyword_value ns k' v")
    case (Inl p)
    with Cons.prems(1) show ?thesis
      by (simp only: e toJSONSchema_range_step) simp
  next
    case (Inr opt)
    show ?thesis
    proof (cases opt)
      case None
      with Inr Cons.prems(1) have rest: "toJSONSchema_range ns schema acc = Inr r"
        by (simp only: e toJSONSchema_range_step) simp
      show ?thesis
      proof (cases "(k, val) = (k', v)")
        case True
        then show ?thesis
          using range_untouched [OF rest fresh] Inr None by simp
      next
        case False
        then have "(k, val) \<in> set schema" using Cons.prems(3) by (auto simp: e)
        then show ?thesis using Cons.IH [OF rest dist] by blast
      qed
    next
      case (Some x)
      with Inr Cons.prems(1)
      have rest: "toJSONSchema_range ns schema (AList.update k' x acc) = Inr r"
        by (simp only: e toJSONSchema_range_step) simp
      show ?thesis
      proof (cases "(k, val) = (k', v)")
        case True
        then show ?thesis
          using range_untouched [OF rest fresh] Inr Some by (simp add: update_conv')
      next
        case False
        then have mem: "(k, val) \<in> set schema" using Cons.prems(3) by (auto simp: e)
        then have "k \<noteq> k'" using fresh by force
        then show ?thesis using Cons.IH [OF rest dist mem] by (simp add: update_conv')
      qed
    qed
  qed
qed


lemma props_untouched:
  "convertProperties_range ns props acc = Inr r \<Longrightarrow> k \<notin> fst ` set props
     \<Longrightarrow> map_of r k = map_of acc k"
proof (induction props arbitrary: acc)
  case Nil
  then show ?case by simp
next
  case (Cons e props)
  obtain name propDef where e: "e = (name, propDef)" by (cases e)
  from Cons.prems(2) have ne: "k \<noteq> name" and notin: "k \<notin> fst ` set props"
    by (auto simp: e)
  from Cons.prems(1) show ?case
    using Cons.IH notin ne
    by (auto simp: e update_conv' split: yaml.splits sum.splits)
qed

lemma props_lookup:
  "convertProperties_range ns props acc = Inr r \<Longrightarrow> distinct (map fst props)
     \<Longrightarrow> (name, propDef) \<in> set props
     \<Longrightarrow> (case propDef of
            YMap propMap \<Rightarrow>
              (case toJSONSchema ns propMap of
                 Inl p \<Rightarrow> False | Inr t \<Rightarrow> map_of r name = Some (YMap t))
          | _ \<Rightarrow> map_of r name = map_of acc name)"
proof (induction props arbitrary: acc)
  case Nil
  then show ?case by simp
next
  case (Cons e props)
  obtain name' propDef' where e: "e = (name', propDef')" by (cases e)
  from Cons.prems(2) have fresh: "name' \<notin> fst ` set props" and dist: "distinct (map fst props)"
    by (auto simp: e)
  show ?case
  proof (cases "(name, propDef) = (name', propDef')")
    case True
    then show ?thesis
      using Cons.prems(1) fresh
      by (auto simp: e update_conv' split: yaml.splits sum.splits dest: props_untouched)
  next
    case False
    then have mem: "(name, propDef) \<in> set props" using Cons.prems(3) by (auto simp: e)
    then have ne: "name \<noteq> name'" using fresh by force
    from Cons.prems(1) show ?thesis
      using Cons.IH [OF _ dist mem] ne
      by (auto simp: e update_conv' split: yaml.splits sum.splits)
  qed
qed

lemma convertAllOf_items:
  "convertAllOf ns allOf = Inr converted \<Longrightarrow> list_all2 (allOf_slot ns) allOf converted"
proof (induction allOf arbitrary: converted)
  case Nil
  then show ?case by simp
next
  case (Cons item allOf)
  from Cons.prems obtain out rest where
      "converted = out # rest" "convertAllOf ns allOf = Inr rest" "allOf_slot ns item out"
    by (cases item) (auto simp: allOf_slot_def split: sum.splits)
  then show ?case using Cons.IH by simp
qed

text \<open>
  Claim C2. Whenever the translator returns a node for a schema node (a Go map, so with
  distinct keys): a \<^verbatim>\<open>$ref\<close> with a string value becomes the namespace prefix followed
  by what follows the last \<^verbatim>\<open>/\<close> of that string; \<^verbatim>\<open>properties\<close> becomes the result of
  \<^verbatim>\<open>convertProperties\<close>, in which every property that is a map is the translation of
  that map under the same name; \<^verbatim>\<open>items\<close> becomes its translation; \<^verbatim>\<open>allOf\<close> becomes a
  list of the same length whose slots, in order, are the translations of the items;
  and every other keyword is present in the result with the value it had.
\<close>

theorem translator_rewrites_and_copies:
  assumes "distinct (map fst schema)" and "toJSONSchema ns schema = Inr result"
  shows "(\<forall>ref. (''$ref'', YStr ref) \<in> set schema \<longrightarrow>
            map_of result ''$ref''
              = Some (YStr (ns @ rev (takeWhile (\<lambda>c. c \<noteq> CHR ''/'') (rev ref)))))
       \<and> (\<forall>props. (''properties'', YMap props) \<in> set schema \<longrightarrow>
            (\<exists>converted. convertProperties ns props = Inr converted
               \<and> map_of result ''properties'' = Some (YMap converted)
               \<and> (distinct (map fst props) \<longrightarrow>
                    (\<forall>name propMap. (name, YMap propMap) \<in> set props \<longrightarrow>
                       (\<exists>t. toJSONSchema ns propMap = Inr t
                          \<and> map_of converted name = Some (YMap t))))))
       \<and> (\<forall>items. (''items'', YMap items) \<in> set schema \<longrightarrow>
            (\<exists>converted. toJSONSchema ns items = Inr converted
               \<and> map_of result ''items'' = Some (YMap converted)))
       \<and> (\<forall>allOf. (''allOf'', YSeq allOf) \<in> set schema \<longrightarrow>
            (\<exists>converted. map_of result ''allOf'' = Some (YSeq converted)
               \<and> list_all2 (allOf_slot ns) allOf converted))
       \<and> (\<forall>k val. (k, val) \<in> set schema \<and> k \<noteq> ''$ref'' \<and> k \<noteq> ''properties''
                     \<and> k \<noteq> ''items'' \<and> k \<noteq> ''allOf'' \<longrightarrow>
            map_of result k = Some val)"
proof -
  from assms(2)
  have run: "toJSONSchema_range ns schema [(''$schema'', YStr draft2020)] = Inr result"
    by simp
  note look = range_lookup [OF run assms(1)]
  have ref: "map_of result ''$ref''
               = Some (YStr (ns @ rev (takeWhile (\<lambda>c. c \<noteq> CHR ''/'') (rev ref))))"
    if "(''$ref'', YStr ref) \<in> set schema" for ref
    using look [OF that] by (simp add: keyword_value_def last_Split)
  have props: "\<exists>converted. convertProperties ns props = Inr converted
               \<and> map_of result ''properties'' = Some (YMap converted)
               \<and> (distinct (map fst props) \<longrightarrow>
                    (\<forall>name propMap. (name, YMap propMap) \<in> set props \<longrightarrow>
                       (\<exists>t. toJSONSchema ns propMap = Inr t
                          \<and> map_of converted name = Some (YMap t))))"
    if "(''properties'', YMap props) \<in> set schema" for props
  proof -
    from look [OF that] obtain converted where c: "convertProperties ns props = Inr converted"
        "map_of result ''properties'' = Some (YMap converted)"
      by (auto simp: keyword_value_def split: sum.splits)
    have "\<exists>t. toJSONSchema ns propMap = Inr t \<and> map_of converted name = Some (YMap t)"
      if d: "distinct (map fst props)" and m: "(name, YMap propMap) \<in> set props"
      for name propMap
      using props_lookup [OF _ d m, of ns "[]" converted] c(1)
      by (auto split: sum.splits)
    with c show ?thesis by blast
  qed
  have items: "\<exists>converted. toJSONSchema ns items = Inr converted
               \<and> map_of result ''items'' = Some (YMap converted)"
    if "(''items'', YMap items) \<in> set schema" for items
    using look [OF that] by (auto simp: keyword_value_def split: sum.splits)
  have allOf: "\<exists>converted. map_of result ''allOf'' = Some (YSeq converted)
               \<and> list_all2 (allOf_slot ns) allOf converted"
    if "(''allOf'', YSeq allOf) \<in> set schema" for allOf
    using look [OF that]
    by (auto simp: keyword_value_def split: sum.splits dest: convertAllOf_items)
  have other: "map_of result k = Some val"
    if "(k, val) \<in> set schema" "k \<noteq> ''$ref''" "k \<noteq> ''properties''" "k \<noteq> ''items''"
       "k \<noteq> ''allOf''" for k val
    using look [OF that(1)] that(2-) by (simp add: keyword_value_def)
  show ?thesis
    using ref props items allOf other by blast
qed


theorem translator_rewrites_and_copies_witness:
  "distinct (map fst composite_node)
   \<and> toJSONSchema asyncapi_ns composite_node = Inr composite_translated
   \<and> map_of composite_translated ''$ref'' = Some (YStr ''synapse://asyncapi/OrderItem'')
   \<and> map_of composite_translated ''required'' = Some (YSeq [YStr ''sku''])"
proof -
  have d: "distinct (map fst composite_node)"
    by (simp add: composite_node_def)
  have t: "toJSONSchema asyncapi_ns composite_node = Inr composite_translated"
    by (simp add: composite_node_def composite_translated_def asyncapi_ns_def)
  note inst = translator_rewrites_and_copies [OF d t]
  have r: "(''$ref'', YStr ''#/components/schemas/OrderItem'') \<in> set composite_node"
    by (simp add: composite_node_def)
  have q: "(''required'', YSeq [YStr ''sku'']) \<in> set composite_node"
    by (simp add: composite_node_def)
  from inst r have "map_of composite_translated ''$ref''
      = Some (YStr (asyncapi_ns @ rev (takeWhile (\<lambda>c. c \<noteq> CHR ''/'')
                                        (rev ''#/components/schemas/OrderItem''))))"
    by blast
  then have 1: "map_of composite_translated ''$ref'' = Some (YStr ''synapse://asyncapi/OrderItem'')"
    by (simp add: asyncapi_ns_def)
  from inst q have 2: "map_of composite_translated ''required'' = Some (YSeq [YStr ''sku''])"
    by simp
  show ?thesis using d t 1 2 by blast
qed


section \<open>Loading: what the two passes do with any library\<close>

lemma addResources_append:
  "addResources L ns (xs @ ys) c names =
     (case addResources L ns xs c names of
        Inl p \<Rightarrow> Inl p
      | Inr (c', names', Some e) \<Rightarrow> Inr (c', names', Some e)
      | Inr (c', names', None) \<Rightarrow> addResources L ns ys c' names')"
proof (induction xs arbitrary: c names)
  case Nil
  show ?case by simp
next
  case (Cons e xs)
  obtain name d where e: "e = (name, d)" by (cases e)
  show ?case
    by (cases d) (simp_all add: e Cons.IH split: sum.splits prod.splits option.splits)
qed

lemma addResources_passed_over:
  assumes "(\<forall>m. schemaDef \<noteq> YMap m)
           \<or> (\<exists>m t e. schemaDef = YMap m \<and> toJSONSchema ns m = Inr t \<and> Marshal L t = Inl e)"
  shows "addResources L ns (before @ (name, schemaDef) # after) c names
           = addResources L ns (before @ after) c names"
proof -
  have "addResources L ns ((name, schemaDef) # after) c' names'
          = addResources L ns after c' names'" for c' names'
    using assms by (cases schemaDef) auto
  then show ?thesis
    by (simp add: addResources_append [of L ns before] split: sum.splits prod.splits option.splits)
qed

lemma addResources_names:
  "addResources L ns defs c names = Inr (c', names', e)
     \<Longrightarrow> set names' \<subseteq> set names \<union> fst ` set defs"
proof (induction defs arbitrary: c names)
  case Nil
  then show ?case by simp
next
  case (Cons e defs)
  obtain name d where e: "e = (name, d)" by (cases e)
  from Cons.prems show ?case
    using Cons.IH
    by (cases d) (fastforce simp: e split: sum.splits prod.splits option.splits)+
qed

lemma compileAll_dom:
  "compileAll L ns names c m = (c', m', e) \<Longrightarrow> dom m' \<subseteq> dom m \<union> set names"
proof (induction names arbitrary: c m)
  case Nil
  then show ?case by auto
next
  case (Cons name names)
  from Cons.prems show ?case
    using Cons.IH
    by (fastforce split: sum.splits prod.splits)
qed


lemma NewAsyncAPIValidator_success:
  "NewAsyncAPIValidator L (Document spec) path = Inr (Some v, None) \<longleftrightarrow>
     (\<exists>c names c' compiled.
        addResources L asyncapi_ns (componentSchemas spec) (NewCompiler L) [] = Inr (c, names, None)
        \<and> compileAll L asyncapi_ns names c Map.empty = (c', compiled, None)
        \<and> v = \<lparr>schemas = compiled,
                 channels = (case map_of spec ''channels'' of
                               Some (YMap chans) \<Rightarrow> parseChannels chans Map.empty
                             | _ \<Rightarrow> Map.empty),
                 compiler = c', specPath = path\<rparr>)"
  by (auto simp: NewAsyncAPIValidator_def loadSpec_def Let_def
           split: sum.splits prod.splits option.splits yaml.splits)

lemma NewOpenAPIValidator_success:
  "NewOpenAPIValidator L fs path = Inr (Some v, None) \<longleftrightarrow>
     (\<exists>spec files c names c' compiled.
        Root fs = Document spec \<and> SchemasDir fs = Inr files
        \<and> loadComponentSchemas_files L files (NewCompiler L) [] = Inr (c, names, None)
        \<and> compileAll L openapi_ns names c Map.empty = (c', compiled, None)
        \<and> v = \<lparr>o_schemas = compiled, o_compiler = c', o_specPath = path,
                 o_components = []\<rparr>)"
  by (auto simp: NewOpenAPIValidator_def loadSpec_openapi_def loadComponentSchemas_def
           split: sum.splits prod.splits option.splits spec_file.splits)

lemma files_append:
  "loadComponentSchemas_files L (xs @ ys) c names =
     (case loadComponentSchemas_files L xs c names of
        Inl p \<Rightarrow> Inl p
      | Inr (c', names', Some e) \<Rightarrow> Inr (c', names', Some e)
      | Inr (c', names', None) \<Rightarrow> loadComponentSchemas_files L ys c' names')"
proof (induction xs arbitrary: c names)
  case Nil
  show ?case by simp
next
  case (Cons f xs)
  show ?case
    by (simp add: Cons.IH split: sum.splits prod.splits option.splits spec_file.splits)
qed

lemma files_names:
  "loadComponentSchemas_files L files c names = Inr (c', names', e)
     \<Longrightarrow> set names' \<subseteq> set names \<union> declared files"
proof (induction files arbitrary: c names)
  case Nil
  then show ?case by simp
next
  case (Cons f files)
  have d: "declared (f # files)
             = (case Content f of Document defs \<Rightarrow> fst ` set defs | _ \<Rightarrow> {}) \<union> declared files"
    by (simp add: declared_def)
  show ?case
  proof (cases "IsDir f \<or> \<not> HasSuffix (FileName f) ''.yaml''
                \<or> FileName f = ''_index.yaml''")
    case True
    with Cons.prems have "loadComponentSchemas_files L files c names = Inr (c', names', e)"
      by (auto split: if_splits)
    from Cons.IH [OF this] show ?thesis by (auto simp: d)
  next
    case False
    show ?thesis
    proof (cases "Content f")
      case (Unreadable x)
      with False Cons.prems show ?thesis by auto
    next
      case (Malformed x)
      with False Cons.prems show ?thesis by auto
    next
      case (Document defs)
      show ?thesis
      proof (cases "addResources L openapi_ns defs c names")
        case (Inl p)
        with False Document Cons.prems show ?thesis by auto
      next
        case (Inr res)
        obtain c1 names1 e1 where res: "res = (c1, names1, e1)" by (cases res)
        from addResources_names [OF Inr [unfolded res]]
        have n1: "set names1 \<subseteq> set names \<union> fst ` set defs" .
        show ?thesis
        proof (cases e1)
          case None
          with False Document Inr res Cons.prems
          have "loadComponentSchemas_files L files c1 names1 = Inr (c', names', e)"
            by auto
          from Cons.IH [OF this] n1 show ?thesis
            by (auto simp: d Document)
        next
          case (Some err)
          with False Document Inr res Cons.prems have "names' = names1" by auto
          with n1 show ?thesis by (auto simp: d Document)
        qed
      qed
    qed
  qed
qed

lemma files_passed_over:
  assumes "Content file = Document (before @ (name, schemaDef) # after)"
    and "(\<forall>m. schemaDef \<noteq> YMap m)
           \<or> (\<exists>m t e. schemaDef = YMap m \<and> toJSONSchema openapi_ns m = Inr t
                        \<and> Marshal L t = Inl e)"
  shows "loadComponentSchemas_files L (files1 @ file # files2) c names
           = loadComponentSchemas_files L
               (files1 @ file\<lparr>Content := Document (before @ after)\<rparr> # files2) c names"
proof -
  have "loadComponentSchemas_files L (file # files2) c' names'
          = loadComponentSchemas_files L (file\<lparr>Content := Document (before @ after)\<rparr> # files2)
              c' names'" for c' names'
    using assms(1) addResources_passed_over [OF assms(2), of before name after]
    by simp
  then show ?thesis
    by (simp add: files_append [of L files1] split: sum.splits prod.splits option.splits)
qed


lemma passed_over_cases:
  "passed_over L ns schemaDef \<Longrightarrow>
     (\<forall>m. schemaDef \<noteq> YMap m)
     \<or> (\<exists>m t e. schemaDef = YMap m \<and> toJSONSchema ns m = Inr t \<and> Marshal L t = Inl e)"
  by (cases schemaDef) (auto simp: passed_over_def split: sum.splits)

lemma skipped_async:
  assumes skip: "passed_over L asyncapi_ns schemaDef"
    and spec: "componentSchemas spec = before @ (name, schemaDef) # after"
    and fresh: "name \<notin> fst ` set (before @ after)"
    and spec': "componentSchemas spec' = before @ after"
               "map_of spec' ''channels'' = map_of spec ''channels''"
  shows "NewAsyncAPIValidator L (Document spec) path = NewAsyncAPIValidator L (Document spec') path"
    and "NewAsyncAPIValidator L (Document spec) path = Inr (Some v, None)
           \<Longrightarrow> schemas v name = None
               \<and> ValidateMessage L v name payload = (Some (SchemaNotFound name), v)"
proof -
  have same: "addResources L asyncapi_ns (componentSchemas spec) c names
                = addResources L asyncapi_ns (componentSchemas spec') c names" for c names
    using addResources_passed_over [OF passed_over_cases [OF skip]] spec spec'(1) by simp
  show eq: "NewAsyncAPIValidator L (Document spec) path
              = NewAsyncAPIValidator L (Document spec') path"
    by (simp add: NewAsyncAPIValidator_def loadSpec_def same spec'(2))
  assume "NewAsyncAPIValidator L (Document spec) path = Inr (Some v, None)"
  then have "NewAsyncAPIValidator L (Document spec') path = Inr (Some v, None)"
    using eq by simp
  then obtain c names c' where
      p1: "addResources L asyncapi_ns (before @ after) (NewCompiler L) [] = Inr (c, names, None)"
      and p2: "compileAll L asyncapi_ns names c Map.empty = (c', schemas v, None)"
    unfolding NewAsyncAPIValidator_success spec'(1) by auto
  from addResources_names [OF p1] compileAll_dom [OF p2] fresh
  have "name \<notin> dom (schemas v)" by auto
  then have "schemas v name = None" by auto
  then show "schemas v name = None
               \<and> ValidateMessage L v name payload = (Some (SchemaNotFound name), v)"
    by (simp add: ValidateMessage_def)
qed

lemma declared_append: "declared (xs @ ys) = declared xs \<union> declared ys"
  by (simp add: declared_def)

lemma declared_Cons:
  "declared (f # fs)
     = (case Content f of Document defs \<Rightarrow> fst ` set defs | _ \<Rightarrow> {}) \<union> declared fs"
  by (simp add: declared_def)

lemma skipped_openapi:
  assumes skip: "passed_over L openapi_ns schemaDef"
    and dir: "SchemasDir fs = Inr (files1 @ file # files2)"
    and content: "Content file = Document (before @ (name, schemaDef) # after)"
    and fresh: "name \<notin> fst ` set (before @ after)" "name \<notin> declared (files1 @ files2)"
  shows "NewOpenAPIValidator L fs path
           = NewOpenAPIValidator L
               (fs\<lparr>SchemasDir := Inr (files1 @ file\<lparr>Content := Document (before @ after)\<rparr>
                                        # files2)\<rparr>) path"
    and "NewOpenAPIValidator L fs path = Inr (Some v, None)
           \<Longrightarrow> o_schemas v name = None
               \<and> ValidateResponse L v name body = (Some (SchemaNotFound name), v)"
proof -
  let ?file' = "file\<lparr>Content := Document (before @ after)\<rparr>"
  let ?fs' = "fs\<lparr>SchemasDir := Inr (files1 @ ?file' # files2)\<rparr>"
  note same = files_passed_over [OF content passed_over_cases [OF skip], of files1 files2]
  have "loadComponentSchemas L (SchemasDir fs) w
          = loadComponentSchemas L (SchemasDir ?fs') w" for w
    by (simp add: loadComponentSchemas_def dir same)
  then show eq: "NewOpenAPIValidator L fs path = NewOpenAPIValidator L ?fs' path"
    by (cases "Root fs") (simp_all add: NewOpenAPIValidator_def loadSpec_openapi_def)
  assume "NewOpenAPIValidator L fs path = Inr (Some v, None)"
  then have "NewOpenAPIValidator L ?fs' path = Inr (Some v, None)"
    using eq by simp
  then obtain c names c' where
      p1: "loadComponentSchemas_files L (files1 @ ?file' # files2) (NewCompiler L) []
             = Inr (c, names, None)"
      and p2: "compileAll L openapi_ns names c Map.empty = (c', o_schemas v, None)"
    unfolding NewOpenAPIValidator_success by auto
  have "declared (files1 @ ?file' # files2) = declared (files1 @ files2) \<union> fst ` set (before @ after)"
    by (auto simp: declared_append declared_Cons)
  with files_names [OF p1] compileAll_dom [OF p2] fresh
  have "name \<notin> dom (o_schemas v)" by auto
  then have "o_schemas v name = None" by auto
  then show "o_schemas v name = None
               \<and> ValidateResponse L v name body = (Some (SchemaNotFound name), v)"
    by (simp add: ValidateResponse_def)
qed

text \<open>
  Claim C10. An entry of the schema section whose value is not a mapping, or whose
  translation does not serialize, is passed over without a trace: both constructors
  return exactly what they return for the specification without that entry (so the
  entry is never handed to \<^verbatim>\<open>AddResource\<close> and causes no load-time failure), and when
  construction succeeds the name is not in the schema map, so that validating against
  it gives the error ``schema not found''.
\<close>

theorem passed_over_entry_is_unknown:
  "(passed_over L asyncapi_ns schemaDef
      \<and> componentSchemas spec = before @ (name, schemaDef) # after
      \<and> name \<notin> fst ` set (before @ after)
      \<and> componentSchemas spec' = before @ after
      \<and> map_of spec' ''channels'' = map_of spec ''channels''
    \<longrightarrow> NewAsyncAPIValidator L (Document spec) path
          = NewAsyncAPIValidator L (Document spec') path
        \<and> (\<forall>v payload. NewAsyncAPIValidator L (Document spec) path = Inr (Some v, None) \<longrightarrow>
              schemas v name = None
              \<and> ValidateMessage L v name payload = (Some (SchemaNotFound name), v)))
   \<and> (passed_over L openapi_ns schemaDef
      \<and> SchemasDir fs = Inr (files1 @ file # files2)
      \<and> Content file = Document (before @ (name, schemaDef) # after)
      \<and> name \<notin> fst ` set (before @ after)
      \<and> name \<notin> declared (files1 @ files2)
    \<longrightarrow> NewOpenAPIValidator L fs path'
          = NewOpenAPIValidator L
              (fs\<lparr>SchemasDir := Inr (files1 @ file\<lparr>Content := Document (before @ after)\<rparr>
                                       # files2)\<rparr>) path'
        \<and> (\<forall>w body. NewOpenAPIValidator L fs path' = Inr (Some w, None) \<longrightarrow>
              o_schemas w name = None
              \<and> ValidateResponse L w name body = (Some (SchemaNotFound name), w)))"
proof (intro conjI impI)
  assume h: "passed_over L asyncapi_ns schemaDef
      \<and> componentSchemas spec = before @ (name, schemaDef) # after
      \<and> name \<notin> fst ` set (before @ after)
      \<and> componentSchemas spec' = before @ after
      \<and> map_of spec' ''channels'' = map_of spec ''channels''"
  then have h1: "passed_over L asyncapi_ns schemaDef"
    and h2: "componentSchemas spec = before @ (name, schemaDef) # after"
    and h3: "name \<notin> fst ` set (before @ after)"
    and h4: "componentSchemas spec' = before @ after"
    and h5: "map_of spec' ''channels'' = map_of spec ''channels''"
    by blast+
  show "NewAsyncAPIValidator L (Document spec) path
          = NewAsyncAPIValidator L (Document spec') path"
    by (rule skipped_async(1) [OF h1 h2 h3 h4 h5])
  show "\<forall>v payload. NewAsyncAPIValidator L (Document spec) path = Inr (Some v, None) \<longrightarrow>
              schemas v name = None
              \<and> ValidateMessage L v name payload = (Some (SchemaNotFound name), v)"
    using skipped_async(2) [OF h1 h2 h3 h4 h5] by blast
next
  assume h: "passed_over L openapi_ns schemaDef
      \<and> SchemasDir fs = Inr (files1 @ file # files2)
      \<and> Content file = Document (before @ (name, schemaDef) # after)
      \<and> name \<notin> fst ` set (before @ after)
      \<and> name \<notin> declared (files1 @ files2)"
  then have h1: "passed_over L openapi_ns schemaDef"
    and h2: "SchemasDir fs = Inr (files1 @ file # files2)"
    and h3: "Content file = Document (before @ (name, schemaDef) # after)"
    and h4: "name \<notin> fst ` set (before @ after)"
    and h5: "name \<notin> declared (files1 @ files2)"
    by blast+
  show "NewOpenAPIValidator L fs path'
          = NewOpenAPIValidator L
              (fs\<lparr>SchemasDir := Inr (files1 @ file\<lparr>Content := Document (before @ after)\<rparr>
                                       # files2)\<rparr>) path'"
    by (rule skipped_openapi(1) [OF h1 h2 h3 h4 h5])
  show "\<forall>w body. NewOpenAPIValidator L fs path' = Inr (Some w, None) \<longrightarrow>
              o_schemas w name = None
              \<and> ValidateResponse L w name body = (Some (SchemaNotFound name), w)"
    using skipped_openapi(2) [OF h1 h2 h3 h4 h5] by blast
qed

lemma sloppy_loaded:
  "NewAsyncAPIValidator example_library (Document sloppy_spec) ''asyncapi.yaml''
     = Inr (Some ping_validator, None)"
  by (simp add: NewAsyncAPIValidator_def loadSpec_def sloppy_spec_def sloppy_schemas_def
        ping_validator_def example_library_def registry_def componentSchemas_def
        asyncapi_ns_def draft2020_def)

lemma sloppy_files_loaded:
  "NewOpenAPIValidator example_library sloppy_files ''openapi.yaml''
     = Inr (Some ping_validator_rest, None)"
  by (simp add: NewOpenAPIValidator_def loadSpec_openapi_def loadComponentSchemas_def
        sloppy_files_def sloppy_schemas_def HasSuffix_def
        ping_validator_rest_def example_library_def registry_def
        openapi_ns_def draft2020_def)

theorem passed_over_entry_is_unknown_witness:
  "passed_over example_library asyncapi_ns
       (YMap [(''type'', YStr ''number''), (''maximum'', YNonFinite)])
   \<and> NewAsyncAPIValidator example_library (Document sloppy_spec) ''asyncapi.yaml''
       = Inr (Some ping_validator, None)
   \<and> NewAsyncAPIValidator example_library (Document tidy_spec) ''asyncapi.yaml''
       = Inr (Some ping_validator, None)
   \<and> ValidateMessage example_library ping_validator ''Limits'' ''{}''
       = (Some (SchemaNotFound ''Limits''), ping_validator)
   \<and> passed_over example_library openapi_ns (YStr ''1.0'')
   \<and> NewOpenAPIValidator example_library sloppy_files ''openapi.yaml''
       = Inr (Some ping_validator_rest, None)
   \<and> ValidateResponse example_library ping_validator_rest ''Version'' ''{}''
       = (Some (SchemaNotFound ''Version''), ping_validator_rest)"
proof -
  let ?limits = "YMap [(''type'', YStr ''number''), (''maximum'', YNonFinite)]"
  let ?ping = "(''Ping'', YMap [(''type'', YStr ''object'')])"
  let ?version = "(''Version'', YStr ''1.0'')"
  let ?file = "\<lparr>FileName = ''common.yaml'', IsDir = False, Content = Document sloppy_schemas\<rparr>"
  have a1: "passed_over example_library asyncapi_ns ?limits"
    by (simp add: passed_over_def example_library_def registry_def)
  have a2: "componentSchemas sloppy_spec = [?ping] @ (''Limits'', ?limits) # [?version]"
    by (simp add: componentSchemas_def sloppy_spec_def sloppy_schemas_def)
  have a3: "''Limits'' \<notin> fst ` set ([?ping] @ [?version])"
    by simp
  have a4: "componentSchemas tidy_spec = [?ping] @ [?version]"
    by (simp add: componentSchemas_def tidy_spec_def)
  have a5: "map_of tidy_spec ''channels'' = map_of sloppy_spec ''channels''"
    by (simp add: tidy_spec_def sloppy_spec_def)
  have b1: "passed_over example_library openapi_ns (YStr ''1.0'')"
    by (simp add: passed_over_def)
  have b2: "SchemasDir sloppy_files = Inr ([] @ ?file # [])"
    by (simp add: sloppy_files_def)
  have b3: "Content ?file = Document ([?ping, (''Limits'', ?limits)] @ ?version # [])"
    by (simp add: sloppy_schemas_def)
  have b4: "''Version'' \<notin> fst ` set ([?ping, (''Limits'', ?limits)] @ [])"
    by simp
  have b5: "''Version'' \<notin> declared ([] @ [])"
    by (simp add: declared_def)
  note async = passed_over_entry_is_unknown [THEN conjunct1, rule_format,
      of example_library ?limits sloppy_spec "[?ping]" "''Limits''" "[?version]" tidy_spec
         "''asyncapi.yaml''", OF conjI [OF a1 conjI [OF a2 conjI [OF a3 conjI [OF a4 a5]]]]]
  note rest = passed_over_entry_is_unknown [THEN conjunct2, rule_format,
      of example_library "YStr ''1.0''" sloppy_files "[]" ?file "[]"
         "[?ping, (''Limits'', ?limits)]" "''Version''" "[]" "''openapi.yaml''",
      OF conjI [OF b1 conjI [OF b2 conjI [OF b3 conjI [OF b4 b5]]]]]
  have c1: "NewAsyncAPIValidator example_library (Document tidy_spec) ''asyncapi.yaml''
       = Inr (Some ping_validator, None)"
    using async [THEN conjunct1] sloppy_loaded by simp
  have c2: "ValidateMessage example_library ping_validator ''Limits'' ''{}''
       = (Some (SchemaNotFound ''Limits''), ping_validator)"
    using async [THEN conjunct2, rule_format, OF sloppy_loaded] by simp
  have c3: "ValidateResponse example_library ping_validator_rest ''Version'' ''{}''
       = (Some (SchemaNotFound ''Version''), ping_validator_rest)"
    using rest [THEN conjunct2, rule_format, OF sloppy_files_loaded] by simp
  show ?thesis
    using a1 sloppy_loaded c1 c2 b1 sloppy_files_loaded c3 by (intro conjI)
qed

section \<open>Loading with a registry that stores and resolves\<close>























lemma rest_traced_loaded:
  "loadSpec_openapi (traced example_library) rest_files
     \<lparr>o_schemas = Map.empty, o_compiler = (NewCompiler example_library, []),
      o_specPath = ''openapi.yaml'', o_components = []\<rparr>
     = Inr (rest_traced, None)"
  by (simp add: rest_traced_def rest_defs traced_def example_defs)

lemma rest_traced_log:
  "snd (o_compiler rest_traced)
     = [Added ''synapse://schemas/HealthResponse'', Added ''synapse://schemas/Error'',
        Added ''synapse://schemas/Error'', Compiled ''synapse://schemas/HealthResponse'',
        Compiled ''synapse://schemas/Error'', Compiled ''synapse://schemas/Error'']"
  by (simp add: rest_traced_def rest_defs traced_def example_defs)












lemma addResources_recorded:
  "addResources L ns defs c (recorded @ names)
     = map_sum id (\<lambda>(c', names', e). (c', recorded @ names', e))
         (addResources L ns defs c names)"
proof (induction defs arbitrary: c names)
  case Nil
  show ?case by simp
next
  case (Cons e' defs)
  obtain name d where e': "e' = (name, d)" by (cases e')
  show ?case
  proof (cases "\<exists>m. d = YMap m")
    case False
    then show ?thesis by (cases d) (simp_all add: e' Cons.IH)
  next
    case True
    then obtain m where d: "d = YMap m" by blast
    show ?thesis
    proof (cases "toJSONSchema ns m")
      case (Inl p)
      then show ?thesis by (simp add: e' d del: toJSONSchema.simps)
    next
      case (Inr t)
      show ?thesis
      proof (cases "Marshal L t")
        case (Inl err)
        with Inr show ?thesis by (simp add: e' d Cons.IH del: toJSONSchema.simps)
      next
        case b: (Inr jsonBytes)
        obtain c1 eo where add: "AddResource L c (ns @ name) jsonBytes = (c1, eo)"
          by (cases "AddResource L c (ns @ name) jsonBytes")
        show ?thesis
          using Inr b add Cons.IH [of c1 "names @ [name]"]
          by (cases eo) (auto simp add: e' d simp del: toJSONSchema.simps)
      qed
    qed
  qed
qed

text \<open>
  Claim C5, as the code has it. The REST loader has no check for a name that two files
  declare: what the first pass does with an entry does not depend on the names it has
  recorded so far, both definitions are handed to \<^verbatim>\<open>AddResource\<close> under the same
  identifier, in the order of the files, and the name is compiled once per definition.
  When the library accepts both registrations and compiles, construction succeeds.
\<close>

theorem name_collision_is_not_detected:
  assumes "\<not> IsDir f1" "HasSuffix (FileName f1) ''.yaml''" "FileName f1 \<noteq> ''_index.yaml''"
    and "Content f1 = Document [(name, YMap m1)]"
    and "\<not> IsDir f2" "HasSuffix (FileName f2) ''.yaml''" "FileName f2 \<noteq> ''_index.yaml''"
    and "Content f2 = Document [(name, YMap m2)]"
    and "toJSONSchema openapi_ns m1 = Inr t1" "Marshal L t1 = Inr b1"
    and "toJSONSchema openapi_ns m2 = Inr t2" "Marshal L t2 = Inr b2"
    and "AddResource L (NewCompiler L) (openapi_ns @ name) b1 = (c1, None)"
    and "AddResource L c1 (openapi_ns @ name) b2 = (c2, None)"
    and "Compile L c2 (openapi_ns @ name) = (c3, Inr s1)"
    and "Compile L c3 (openapi_ns @ name) = (c4, Inr s2)"
  shows "NewOpenAPIValidator L \<lparr>Root = Document root, SchemasDir = Inr [f1, f2]\<rparr> path
           = Inr (Some \<lparr>o_schemas = [name \<mapsto> s2], o_compiler = c4, o_specPath = path,
                        o_components = []\<rparr>, None)
         \<and> addResources L ns defs c (recorded @ names)
             = map_sum id (\<lambda>(c', names', e). (c', recorded @ names', e))
                 (addResources L ns defs c names)"
proof
  have p1: "loadComponentSchemas_files L [f1, f2] (NewCompiler L) [] = Inr (c2, [name, name], None)"
    using assms(1-14) by (simp del: toJSONSchema.simps)
  have p2: "compileAll L openapi_ns [name, name] c2 Map.empty = (c4, [name \<mapsto> s2], None)"
    using assms(15,16) by simp
  show "NewOpenAPIValidator L \<lparr>Root = Document root, SchemasDir = Inr [f1, f2]\<rparr> path
           = Inr (Some \<lparr>o_schemas = [name \<mapsto> s2], o_compiler = c4, o_specPath = path,
                        o_components = []\<rparr>, None)"
    unfolding NewOpenAPIValidator_success using p1 p2 by simp
  show "addResources L ns defs c (recorded @ names)
             = map_sum id (\<lambda>(c', names', e). (c', recorded @ names', e))
                 (addResources L ns defs c names)"
    by (rule addResources_recorded)
qed

theorem name_collision_is_not_detected_witness:
  "Content first_file = Document [(''Error'', YMap [(''required'', YSeq [YStr ''code''])])]
   \<and> Content second_file = Document [(''Error'', YMap [(''required'', YSeq [YStr ''message''])])]
   \<and> NewOpenAPIValidator example_library
         \<lparr>Root = Document [], SchemasDir = Inr [first_file, second_file]\<rparr> ''openapi.yaml''
       = Inr (Some \<lparr>o_schemas = [''Error'' \<mapsto> [(''$schema'', YStr draft2020),
                                                 (''required'', YSeq [YStr ''message''])]],
                    o_compiler = [(openapi_ns @ ''Error'',
                                   [(''$schema'', YStr draft2020),
                                    (''required'', YSeq [YStr ''message''])])],
                    o_specPath = ''openapi.yaml'', o_components = []\<rparr>, None)"
proof -
  let ?t1 = "[(''$schema'', YStr draft2020), (''required'', YSeq [YStr ''code''])]"
  let ?t2 = "[(''$schema'', YStr draft2020), (''required'', YSeq [YStr ''message''])]"
  let ?id = "openapi_ns @ ''Error''"
  have f1: "\<not> IsDir first_file" "HasSuffix (FileName first_file) ''.yaml''"
      "FileName first_file \<noteq> ''_index.yaml''"
      "Content first_file = Document [(''Error'', YMap [(''required'', YSeq [YStr ''code''])])]"
    by (simp_all add: first_file_def HasSuffix_def)
  have f2: "\<not> IsDir second_file" "HasSuffix (FileName second_file) ''.yaml''"
      "FileName second_file \<noteq> ''_index.yaml''"
      "Content second_file
         = Document [(''Error'', YMap [(''required'', YSeq [YStr ''message''])])]"
    by (simp_all add: second_file_def HasSuffix_def)
  have t: "toJSONSchema openapi_ns [(''required'', YSeq [YStr ''code''])] = Inr ?t1"
      "Marshal example_library ?t1 = Inr ?t1"
      "toJSONSchema openapi_ns [(''required'', YSeq [YStr ''message''])] = Inr ?t2"
      "Marshal example_library ?t2 = Inr ?t2"
    by (simp_all add: example_defs)
  have a: "AddResource example_library (NewCompiler example_library) ?id ?t1
             = ([(?id, ?t1)], None)"
      "AddResource example_library [(?id, ?t1)] ?id ?t2 = ([(?id, ?t2)], None)"
    by (simp_all add: example_defs)
  have c: "Compile example_library [(?id, ?t2)] ?id = ([(?id, ?t2)], Inr ?t2)"
    by (simp add: example_defs)
  from name_collision_is_not_detected [OF f1 f2 t a c c, of "[]" "''openapi.yaml''"]
  have "NewOpenAPIValidator example_library
         \<lparr>Root = Document [], SchemasDir = Inr [first_file, second_file]\<rparr> ''openapi.yaml''
       = Inr (Some \<lparr>o_schemas = [''Error'' \<mapsto> ?t2], o_compiler = [(?id, ?t2)],
                    o_specPath = ''openapi.yaml'', o_components = []\<rparr>, None)"
    by (rule conjunct1)
  with f1(4) f2(4) show ?thesis by (intro conjI)
qed

text \<open>
  The worked REST specification declares \<open>Error\<close> in two of its files, with different
  bodies. It loads without an error, and the schema compiled for \<open>Error\<close> is the one
  of the later file: the earlier registration is silently replaced.
\<close>

theorem name_collision_counterexample:
  "map_of health_yaml ''Error''
     = Some (YMap [(''type'', YStr ''object''), (''required'', YSeq [YStr ''code''])])
   \<and> map_of orders_yaml ''Error''
     = Some (YMap [(''type'', YStr ''object''), (''required'', YSeq [YStr ''message''])])
   \<and> NewOpenAPIValidator example_library rest_files ''openapi.yaml''
       = Inr (Some rest_validator, None)
   \<and> o_schemas rest_validator ''Error''
       = Some [(''$schema'', YStr draft2020), (''type'', YStr ''object''),
               (''required'', YSeq [YStr ''message''])]"
  using rest_loaded rest_schemas(1)
  by (simp add: health_yaml_def orders_yaml_def)

end
